theory Spec2Isabelle
  imports Main
begin

unbundle bit_operations_syntax

section \<open>TJ Shell: constants and macros\<close>

text \<open>
  The model follows \<^verbatim>\<open>tj_shell.c\<close>. C \<^verbatim>\<open>int\<close> and \<^verbatim>\<open>pid_t\<close> values are modelled
  as \<open>int\<close>: the only arithmetic the shell does on them is \<^verbatim>\<open>i + 1\<close> on a stage index
  below 64 and bit masks on a wait status, so nothing wraps around.
\<close>

definition STR_LEN :: nat where "STR_LEN = 1023"
definition MAX_CMDS :: nat where "MAX_CMDS = 63"
definition MAX_ARGS :: nat where "MAX_ARGS = 63"

definition EXIT_SUCCESS :: int where "EXIT_SUCCESS = 0"
definition EXIT_FAILURE :: int where "EXIT_FAILURE = 1"

definition SIGKILL :: int where "SIGKILL = 9"
definition SIGCONT :: int where "SIGCONT = 18"

text \<open>
  The wait-status macros are not part of the repository; they are written out as the
  C library header defines them:
  \<^verbatim>\<open>WEXITSTATUS(s) = (s & 0xff00) >> 8\<close>, \<^verbatim>\<open>WTERMSIG(s) = s & 0x7f\<close>,
  \<^verbatim>\<open>WIFEXITED(s) = (WTERMSIG(s) == 0)\<close>,
  \<^verbatim>\<open>WIFSIGNALED(s) = (((signed char) ((s & 0x7f) + 1) >> 1) > 0)\<close>,
  \<^verbatim>\<open>WIFSTOPPED(s) = ((s & 0xff) == 0x7f)\<close>, \<^verbatim>\<open>W_EXITCODE(ret, sig) = ret << 8 | sig\<close>.
\<close>

definition WEXITSTATUS :: "int \<Rightarrow> int" where
  "WEXITSTATUS status = drop_bit 8 (status AND 0xff00)"

definition WIFEXITED :: "int \<Rightarrow> bool" where
  "WIFEXITED status = (status AND 0x7f = 0)"

definition WIFSIGNALED :: "int \<Rightarrow> bool" where
  "WIFSIGNALED status =
     (let t = (status AND 0x7f) + 1;
          signed_char = (if 128 \<le> t then t - 256 else t)
      in drop_bit 1 signed_char > (0::int))"

definition WIFSTOPPED :: "int \<Rightarrow> bool" where
  "WIFSTOPPED status = (status AND 0xff = 0x7f)"

definition W_EXITCODE :: "int \<Rightarrow> int \<Rightarrow> int" where
  "W_EXITCODE ret sig = push_bit 8 ret OR sig"

section \<open>Tokenizing\<close>

text \<open>
  \<^verbatim>\<open>tokenize\<close> calls \<^verbatim>\<open>strtok\<close> until it returns \<^verbatim>\<open>NULL\<close>: the tokens are the
  maximal non-empty runs of characters that are not delimiters. \<open>strtok_all\<close> scans
  the input once; \<open>tok\<close> is the token read so far.
\<close>

fun strtok_all :: "string \<Rightarrow> string \<Rightarrow> string \<Rightarrow> string list" where
  "strtok_all delim tok [] = (if tok = [] then [] else [tok])"
| "strtok_all delim tok (c # cs) =
     (if c \<in> set delim
      then (if tok = [] then strtok_all delim [] cs else tok # strtok_all delim [] cs)
      else strtok_all delim (tok @ [c]) cs)"

text \<open>
  \<^verbatim>\<open>tokenize(strs, &no_strs, input, delim)\<close> stores the tokens at \<^verbatim>\<open>strs[0..]\<close> and
  \<^verbatim>\<open>NULL\<close> after the last one, with no bound check. Its callers allocate \<open>cap + 1\<close>
  pointers, so more than \<open>cap\<close> tokens write past the array: that is \<open>None\<close>.
\<close>

definition tokenize :: "nat \<Rightarrow> string \<Rightarrow> string \<Rightarrow> string list option" where
  "tokenize cap input delim =
     (let strs = strtok_all delim [] input
      in if length strs \<le> cap then Some strs else None)"

section \<open>The environment\<close>

text \<open>
  The shell acts on the operating system through system calls. Its own calls and
  output are recorded, in order, as events. A forked child is a separate process: the
  code it runs between \<^verbatim>\<open>fork\<close> and \<^verbatim>\<open>execvp\<close> is recorded, as a list of child
  actions, in the event of the \<^verbatim>\<open>fork\<close> that created it.
\<close>

datatype caction =
    C_setpgid_self
  | C_tcsetpgrp_self
  | C_signals_default
  | C_close int
  | C_dup2 int int
  | C_execvp "string list"
  | C_exit int

datatype message =
    Spawned_in_foreground int
  | Spawned_in_background int
  | Terminated_normally int
  | Terminated_by_a_signal int
  | Stopped int
  | Run_time_was
  | Actual_command_line string
  | Shell_closing
  | Empty_command
  | Command_failed "string list"
  | Could_not_pipe
  | Could_not_fork
  | Could_not_open_proc
  | No_such_directory
  | No_such_child
  | Perror string

datatype event =
    Pipe_call "(int \<times> int) option"
  | Fork_failed
  | Fork int nat "caction list"
  | Close int
  | Waitpid int "int option"
  | Reaped int int
  | Tcsetpgrp int bool
  | Kill int int bool
  | Chdir string bool
  | Sleep nat
  | Stdout message
  | Stderr message

text \<open>
  What the environment decides is a parameter of the model, the \<open>world\<close>:
  \<^item> \<open>shell_pid\<close>: the global of that name, set by \<^verbatim>\<open>init\<close>, which also makes the shell
    the leader of its own process group or exits;
  \<^item> \<open>polling\<close>: the shell was compiled without \<^verbatim>\<open>SIGDET=1\<close>;
  \<^item> \<open>pipe_result k\<close>, \<open>fork_result k\<close>: what the \<open>k\<close>-th call of \<^verbatim>\<open>pipe\<close> and of
    \<^verbatim>\<open>fork\<close> gives (a \<^verbatim>\<open>fork\<close> result that is not positive stands for failure);
  \<^item> \<open>execvp_ok argv\<close>: whether \<^verbatim>\<open>execvp(argv[0], argv)\<close> finds and loads a program;
  \<^item> \<open>run_status pid\<close>: the wait status a child whose program was loaded reports at
    its next state change (exit, death by signal, or stop);
  \<^item> \<open>wait_fails pid\<close>: a blocking \<^verbatim>\<open>waitpid\<close> on \<open>pid\<close> returns \<open>-1\<close> (no such child
    any more, as when the \<^verbatim>\<open>SIGCHLD\<close> handler collected it first);
  \<^item> \<open>uninit_status\<close>, \<open>uninit_pid\<close>: the indeterminate values of the locals
    \<^verbatim>\<open>status\<close> of \<^verbatim>\<open>c_wait\<close> and \<^verbatim>\<open>c_pid\<close> of \<^verbatim>\<open>put_fg\<close> when nothing writes them;
  \<^item> \<open>has_tty\<close>: standard input is the controlling terminal; \<open>pgrp_in_session\<close>: the
    process groups, other than the shell's, that \<^verbatim>\<open>tcsetpgrp\<close> accepts;
  \<^item> \<open>tty_while_blocked pid\<close>: the foreground group some child set while the shell
    was blocked waiting for \<open>pid\<close>, if any;
  \<^item> \<open>child_pgid\<close>, \<open>kill_ok\<close>, \<open>chdir_ok\<close>, \<open>getenv\<close>: the results of \<^verbatim>\<open>getpgid\<close> on
    a child (\<open>-1\<close> on failure), \<^verbatim>\<open>kill\<close>, \<^verbatim>\<open>chdir\<close> and \<^verbatim>\<open>getenv\<close>;
  \<^item> \<open>proc_dir\<close>: the numeric entries of \<^verbatim>\<open>/proc\<close> as (pid, parent pid), \<open>None\<close> for an
    entry whose \<^verbatim>\<open>stat\<close> file cannot be opened, or \<open>None\<close> when \<^verbatim>\<open>/proc\<close> cannot be
    opened; \<open>proc_ppid pid\<close>: the parent recorded in \<^verbatim>\<open>/proc/pid/stat\<close>, if readable.
\<close>

record world =
  shell_pid :: int
  polling :: bool
  pipe_result :: "nat \<Rightarrow> (int \<times> int) option"
  fork_result :: "nat \<Rightarrow> int"
  execvp_ok :: "string list \<Rightarrow> bool"
  run_status :: "int \<Rightarrow> int"
  wait_fails :: "int \<Rightarrow> bool"
  uninit_status :: int
  uninit_pid :: int
  has_tty :: bool
  pgrp_in_session :: "int \<Rightarrow> bool"
  tty_while_blocked :: "int \<Rightarrow> int option"
  child_pgid :: "int \<Rightarrow> int"
  kill_ok :: "int \<Rightarrow> int \<Rightarrow> bool"
  chdir_ok :: "string \<Rightarrow> bool"
  getenv :: "string \<Rightarrow> string option"
  proc_dir :: "(int \<times> int) option list option"
  proc_ppid :: "int \<Rightarrow> int option"

text \<open>
  The state the shell changes:
  \<^item> \<open>trace\<close>: the events so far;
  \<^item> \<open>pipes_made\<close>, \<open>forks_made\<close>: how many \<^verbatim>\<open>pipe\<close> and \<^verbatim>\<open>fork\<close> calls were made;
  \<^item> \<open>static_pipe_fds\<close>, \<open>static_n\<close>: the \<^verbatim>\<open>static int **pipe_fds, n\<close> of
    \<^verbatim>\<open>fork_exec_wait\<close>, which live across its calls (\<open>None\<close>: not allocated, or freed);
  \<^item> \<open>tty_fg\<close>: the terminal's foreground process group;
  \<^item> \<open>forked\<close>: the children forked so far with their argument vectors, newest first;
  \<^item> \<open>pending\<close>: the kernel's record of children whose state change (pid, wait
    status) no \<^verbatim>\<open>waitpid\<close> has collected yet, in the order it hands them out.
\<close>

record os =
  trace :: "event list"
  pipes_made :: nat
  forks_made :: nat
  static_pipe_fds :: "(int \<times> int) list option"
  static_n :: nat
  tty_fg :: int
  forked :: "(int \<times> string list) list"
  pending :: "(int \<times> int) list"

text \<open>
  A call returns a value, or ends the shell process (\<^verbatim>\<open>exit\<close>), or has no defined
  behaviour in C (a write past a buffer, a read through a dangling or null pointer).
\<close>

datatype 'a outcome = Returns 'a os | Exits int os | Undefined_behaviour

definition emit :: "event \<Rightarrow> os \<Rightarrow> os" where
  "emit e s = s\<lparr>trace := trace s @ [e]\<rparr>"

section \<open>Reaping\<close>

text \<open>\<^verbatim>\<open>print_status(c_pid, status)\<close>: the line it prints, if any.\<close>

definition status_message :: "int \<Rightarrow> int \<Rightarrow> message option" where
  "status_message c_pid status =
     (if WIFEXITED status then Some (Terminated_normally c_pid)
      else if WIFSIGNALED status then Some (Terminated_by_a_signal c_pid)
      else if WIFSTOPPED status then Some (Stopped c_pid)
      else None)"

definition print_status :: "int \<Rightarrow> int \<Rightarrow> os \<Rightarrow> os" where
  "print_status c_pid status s =
     (case status_message c_pid status of
        Some m \<Rightarrow> emit (Stdout m) s
      | None \<Rightarrow> s)"

text \<open>
  \<^verbatim>\<open>waitpid(WAIT_ANY, &status, WUNTRACED | WNOHANG)\<close>: the kernel hands out the next
  uncollected state change and forgets it; with none to hand out the call returns at
  once with a value that is not positive. The result is (return value, status, state).
\<close>

definition waitpid_any_nohang :: "os \<Rightarrow> int \<times> int \<times> os" where
  "waitpid_any_nohang s =
     (case pending s of
        [] \<Rightarrow> (0, 0, s)
      | (c_pid, status) # rest \<Rightarrow>
          (c_pid, status, emit (Reaped c_pid status) (s\<lparr>pending := rest\<rparr>)))"

function sigchld_handler :: "os \<Rightarrow> os" where
  "sigchld_handler s =
     (case waitpid_any_nohang s of
        (c_pid, status, s') \<Rightarrow>
          if c_pid > 0 then sigchld_handler (print_status c_pid status s') else s')"
  by pat_completeness auto
termination
  by (relation "measure (\<lambda>s. length (pending s))")
     (auto simp: waitpid_any_nohang_def print_status_def emit_def split: list.splits option.splits)

declare sigchld_handler.simps [simp del]

text \<open>
  The wait status of a child at its next state change: a child whose \<^verbatim>\<open>execvp\<close>
  failed calls \<^verbatim>\<open>_exit(EXIT_FAILURE)\<close>.
\<close>

definition child_fate :: "world \<Rightarrow> os \<Rightarrow> int \<Rightarrow> int" where
  "child_fate w s c_pid =
     (case map_of (forked s) c_pid of
        Some argv \<Rightarrow> if execvp_ok w argv then run_status w c_pid else W_EXITCODE EXIT_FAILURE 0
      | None \<Rightarrow> run_status w c_pid)"

text \<open>
  \<^verbatim>\<open>waitpid(c_pid, &status, WUNTRACED)\<close>: a state change of \<open>c_pid\<close> the kernel still
  holds is handed out at once; otherwise the call fails, or blocks until the child
  changes state, the children running meanwhile. The result is \<open>Some status\<close> when the
  call returned a positive value.
\<close>

definition waitpid_blocking :: "world \<Rightarrow> int \<Rightarrow> os \<Rightarrow> int option \<times> os" where
  "waitpid_blocking w c_pid s =
     (case map_of (pending s) c_pid of
        Some status \<Rightarrow>
          (Some status,
           emit (Waitpid c_pid (Some status))
             (s\<lparr>pending := remove1 (c_pid, status) (pending s)\<rparr>))
      | None \<Rightarrow>
          if wait_fails w c_pid then (None, emit (Waitpid c_pid None) s)
          else
            (let status = child_fate w s c_pid;
                 s' = (case tty_while_blocked w c_pid of
                         None \<Rightarrow> s
                       | Some g \<Rightarrow> s\<lparr>tty_fg := g\<rparr>)
             in (Some status, emit (Waitpid c_pid (Some status)) s')))"

section \<open>Terminal control and the synchronous wait\<close>

definition getpgid :: "world \<Rightarrow> int \<Rightarrow> int" where
  "getpgid w pid = (if pid = shell_pid w then shell_pid w else child_pgid w pid)"

text \<open>\<^verbatim>\<open>if (tcsetpgrp(STDIN_FILENO, pgid) == -1) perror("tcsetpgrp");\<close>\<close>

definition tcsetpgrp_or_perror :: "world \<Rightarrow> int \<Rightarrow> os \<Rightarrow> os" where
  "tcsetpgrp_or_perror w pgid s =
     (if has_tty w \<and> (pgid = shell_pid w \<or> pgrp_in_session w pgid)
      then emit (Tcsetpgrp pgid True) (s\<lparr>tty_fg := pgid\<rparr>)
      else emit (Stderr (Perror ''tcsetpgrp'')) (emit (Tcsetpgrp pgid False) s))"

text \<open>\<^verbatim>\<open>if (kill(pid, sig) == -1) perror("kill");\<close>\<close>

definition kill_or_perror :: "world \<Rightarrow> int \<Rightarrow> int \<Rightarrow> os \<Rightarrow> os" where
  "kill_or_perror w pid sig s =
     (if kill_ok w pid sig then emit (Kill pid sig True) s
      else emit (Stderr (Perror ''kill'')) (emit (Kill pid sig False) s))"

text \<open>
  \<^verbatim>\<open>c_wait(c_pid, t0, cont)\<close>; \<open>timed\<close> stands for \<^verbatim>\<open>t0 != NULL\<close>. The local \<^verbatim>\<open>status\<close>
  is returned as it is when \<^verbatim>\<open>waitpid\<close> did not write it.
\<close>

definition c_wait :: "world \<Rightarrow> int \<Rightarrow> bool \<Rightarrow> bool \<Rightarrow> os \<Rightarrow> int \<times> os" where
  "c_wait w c_pid timed cont s0 =
     (let s1 = (if cont
                then kill_or_perror w c_pid SIGCONT
                       (tcsetpgrp_or_perror w (getpgid w c_pid) s0)
                else s0);
          (r, s2) = waitpid_blocking w c_pid s1;
          s3 = (case r of
                  Some status \<Rightarrow>
                    (let s' = print_status c_pid status s2
                     in if timed then emit (Stdout Run_time_was) s' else s')
                | None \<Rightarrow> s2);
          status = (case r of Some status \<Rightarrow> status | None \<Rightarrow> uninit_status w);
          s4 = tcsetpgrp_or_perror w (getpgid w (shell_pid w)) s3
      in (status, s4))"

section \<open>Fork, exec, wait\<close>

definition STDIN_FILENO :: int where "STDIN_FILENO = 0"
definition STDOUT_FILENO :: int where "STDOUT_FILENO = 1"

text \<open>A pipe is the pair (read end, write end) of its file descriptors.\<close>

definition c_init :: "bool \<Rightarrow> caction list" where
  "c_init foreground =
     [C_setpgid_self] @ (if foreground then [C_tcsetpgrp_self] else []) @ [C_signals_default]"

definition stdout_to_pipe :: "int \<times> int \<Rightarrow> caction list" where
  "stdout_to_pipe pipe_fd =
     [C_close (fst pipe_fd), C_close STDOUT_FILENO, C_dup2 (snd pipe_fd) STDOUT_FILENO]"

definition pipe_to_stdin :: "int \<times> int \<Rightarrow> caction list" where
  "pipe_to_stdin pipe_fd =
     [C_close (snd pipe_fd), C_close STDIN_FILENO, C_dup2 (fst pipe_fd) STDIN_FILENO]"

text \<open>
  The branch \<^verbatim>\<open>c_pid == 0\<close> of \<^verbatim>\<open>fork_exec_wait\<close>: what the child does. \<open>fds\<close> and \<open>n\<close>
  are the child's copies of the statics \<^verbatim>\<open>pipe_fds\<close> and \<^verbatim>\<open>n\<close>.
\<close>

definition child_code ::
  "world \<Rightarrow> string list \<Rightarrow> nat \<Rightarrow> nat \<Rightarrow> bool \<Rightarrow> (int \<times> int) list \<Rightarrow> nat \<Rightarrow> caction list" where
  "child_code w args cmd no_cmds background fds n =
     c_init (\<not> background)
     @ (if no_cmds > 1
        then (if cmd = 1 then stdout_to_pipe (fds ! n) else [])
             @ (if cmd > 1 \<and> cmd < no_cmds
                then pipe_to_stdin (fds ! (n - 1)) @ stdout_to_pipe (fds ! n)
                else [])
             @ (if cmd = no_cmds then pipe_to_stdin (fds ! n) else [])
        else [])
     @ (if execvp_ok w args then [C_execvp args] else [C_execvp args, C_exit EXIT_FAILURE])"

text \<open>The loop that creates \<open>k\<close> pipes; a failing \<^verbatim>\<open>pipe\<close> ends the shell.\<close>

fun make_pipes :: "world \<Rightarrow> nat \<Rightarrow> os \<Rightarrow> (int \<times> int) list outcome" where
  "make_pipes w 0 s = Returns [] s"
| "make_pipes w (Suc k) s =
     (case pipe_result w (pipes_made s) of
        None \<Rightarrow>
          Exits EXIT_FAILURE
            (emit (Stderr Could_not_pipe)
               (emit (Pipe_call None) (s\<lparr>pipes_made := pipes_made s + 1\<rparr>)))
      | Some fd \<Rightarrow>
          (case make_pipes w k
                  (emit (Pipe_call (Some fd)) (s\<lparr>pipes_made := pipes_made s + 1\<rparr>)) of
             Returns fds s' \<Rightarrow> Returns (fd # fds) s'
           | Exits c s' \<Rightarrow> Exits c s'
           | Undefined_behaviour \<Rightarrow> Undefined_behaviour))"

text \<open>
  The head of \<^verbatim>\<open>fork_exec_wait\<close>, up to \<^verbatim>\<open>fork\<close>: the first command of a pipeline
  allocates all the pipes and resets \<^verbatim>\<open>n\<close>; a middle command increments \<^verbatim>\<open>n\<close>.
\<close>

definition open_pipes :: "world \<Rightarrow> nat \<Rightarrow> nat \<Rightarrow> os \<Rightarrow> unit outcome" where
  "open_pipes w cmd no_cmds s0 =
     (case (if no_cmds > 1 \<and> cmd = 1
            then (case make_pipes w (no_cmds - 1) s0 of
                    Returns fds s \<Rightarrow> Returns () (s\<lparr>static_pipe_fds := Some fds, static_n := 0\<rparr>)
                  | Exits c s \<Rightarrow> Exits c s
                  | Undefined_behaviour \<Rightarrow> Undefined_behaviour)
            else Returns () s0) of
        Returns u s1 \<Rightarrow>
          Returns ()
            (if no_cmds > 1 \<and> cmd > 1 \<and> cmd < no_cmds
             then s1\<lparr>static_n := static_n s1 + 1\<rparr> else s1)
      | Exits c s \<Rightarrow> Exits c s
      | Undefined_behaviour \<Rightarrow> Undefined_behaviour)"

text \<open>
  The branch \<^verbatim>\<open>c_pid > 0\<close> and the end of \<^verbatim>\<open>fork_exec_wait\<close>: the parent closes the
  write end of the pipe \<^verbatim>\<open>pipe_fds[n]\<close>, waits for the last command of a foreground
  pipeline only, computes the return value and frees \<^verbatim>\<open>pipe_fds\<close>.
\<close>

definition parent_wait ::
  "world \<Rightarrow> int \<Rightarrow> nat \<Rightarrow> nat \<Rightarrow> bool \<Rightarrow> (int \<times> int) list \<Rightarrow> os \<Rightarrow> int outcome" where
  "parent_wait w c_pid cmd no_cmds background fds s0 =
     (let s1 = (if no_cmds > 1 then emit (Close (snd (fds ! static_n s0))) s0 else s0);
          (status, s2) =
            (if \<not> background \<and> cmd = no_cmds
             then c_wait w c_pid True False (emit (Stdout (Spawned_in_foreground c_pid)) s1)
             else (0, emit (Stdout (Spawned_in_background c_pid)) s1));
          return_value = (if \<not> background \<and> WEXITSTATUS status = EXIT_FAILURE then - 1 else 0);
          s3 = (if no_cmds > 1 \<and> (cmd = no_cmds \<or> return_value = - 1)
                then s2\<lparr>static_pipe_fds := None\<rparr> else s2)
      in Returns return_value s3)"

text \<open>
  \<^verbatim>\<open>fork_exec_wait(args, cmd, no_cmds, background)\<close>. \<open>args\<close> is the vector up to its
  \<^verbatim>\<open>NULL\<close>. Reading \<^verbatim>\<open>pipe_fds[n]\<close> when \<^verbatim>\<open>pipe_fds\<close> is not allocated, or \<open>n\<close> is past
  its end, has no defined behaviour.
\<close>

definition fork_exec_wait ::
  "world \<Rightarrow> string list \<Rightarrow> nat \<Rightarrow> nat \<Rightarrow> bool \<Rightarrow> os \<Rightarrow> int outcome" where
  "fork_exec_wait w args cmd no_cmds background s0 =
     (case open_pipes w cmd no_cmds s0 of
        Exits c s \<Rightarrow> Exits c s
      | Undefined_behaviour \<Rightarrow> Undefined_behaviour
      | Returns u s1 \<Rightarrow>
          (let r = fork_result w (forks_made s1);
               c_pid = (if 0 < r then r else - 1);
               s2 = s1\<lparr>forks_made := forks_made s1 + 1\<rparr>
           in if c_pid = - 1
              then Exits EXIT_FAILURE (emit (Stderr Could_not_fork) (emit Fork_failed s2))
              else
                (case (if no_cmds > 1
                       then (case static_pipe_fds s2 of
                               None \<Rightarrow> None
                             | Some fds \<Rightarrow> if static_n s2 < length fds then Some fds else None)
                       else Some []) of
                   None \<Rightarrow> Undefined_behaviour
                 | Some fds \<Rightarrow>
                     parent_wait w c_pid cmd no_cmds background fds
                       (emit (Fork c_pid cmd
                                (child_code w args cmd no_cmds background fds (static_n s2)))
                          (s2\<lparr>forked := (c_pid, args) # forked s2\<rparr>)))))"

section \<open>Built-in commands\<close>

text \<open>
  \<^verbatim>\<open>change_dir(path)\<close>. The path is formatted into \<^verbatim>\<open>char exec_path[STR_LEN+1]\<close>; a
  longer one writes past the buffer, and so does formatting the null pointer
  \<^verbatim>\<open>getenv("HOME")\<close> gives when the variable is not set.
\<close>

definition change_dir :: "world \<Rightarrow> string \<Rightarrow> os \<Rightarrow> unit outcome" where
  "change_dir w path s =
     (case (if path \<noteq> [] \<and> hd path = CHR ''~''
            then (case getenv w ''HOME'' of
                    None \<Rightarrow> None
                  | Some home \<Rightarrow> Some (home @ tl path))
            else Some path) of
        None \<Rightarrow> Undefined_behaviour
      | Some exec_path \<Rightarrow>
          if length exec_path > STR_LEN then Undefined_behaviour
          else if chdir_ok w exec_path then Returns () (emit (Chdir exec_path True) s)
          else Returns () (emit (Stderr No_such_directory) (emit (Chdir exec_path False) s)))"

text \<open>
  The loop of \<^verbatim>\<open>term_all\<close> over the numeric entries of \<^verbatim>\<open>/proc\<close>. The result of
  \<^verbatim>\<open>fopen\<close> is used unchecked: an entry whose \<^verbatim>\<open>stat\<close> cannot be opened is \<open>None\<close>.
\<close>

fun kill_children :: "world \<Rightarrow> (int \<times> int) option list \<Rightarrow> os \<Rightarrow> os option" where
  "kill_children w [] s = Some s"
| "kill_children w (None # dents) s = None"
| "kill_children w (Some (pid, ppid) # dents) s =
     kill_children w dents
       (if shell_pid w = ppid then kill_or_perror w pid SIGKILL s else s)"

definition term_all :: "world \<Rightarrow> os \<Rightarrow> unit outcome" where
  "term_all w s0 =
     (let s1 = emit (Stdout Shell_closing) s0
      in case proc_dir w of
           None \<Rightarrow> Exits EXIT_FAILURE (emit (Stderr Could_not_open_proc) s1)
         | Some dents \<Rightarrow>
             (case kill_children w dents s1 of
                None \<Rightarrow> Undefined_behaviour
              | Some s2 \<Rightarrow>
                  (let s3 = emit (Sleep 10) s2;
                       s4 = (if polling w then sigchld_handler s3 else s3)
                   in Exits EXIT_SUCCESS s4)))"

text \<open>
  \<^verbatim>\<open>sscanf(s, "%d", &c_pid)\<close>: white space, an optional sign, decimal digits; \<open>None\<close>
  when no digit follows, and then nothing is stored. Values outside the range of
  \<^verbatim>\<open>int\<close> are not modelled.
\<close>

definition is_space :: "char \<Rightarrow> bool" where
  "is_space c = (c \<in> {CHR '' '', CHR 0x09, CHR 0x0A, CHR 0x0B, CHR 0x0C, CHR 0x0D})"

definition is_digit :: "char \<Rightarrow> bool" where
  "is_digit c = (48 \<le> (of_char c :: nat) \<and> (of_char c :: nat) \<le> 57)"

fun scan_digits :: "nat \<Rightarrow> string \<Rightarrow> nat" where
  "scan_digits acc [] = acc"
| "scan_digits acc (c # cs) =
     (if is_digit c then scan_digits (10 * acc + (of_char c - 48)) cs else acc)"

definition sscanf_d :: "string \<Rightarrow> int option" where
  "sscanf_d s =
     (let t = dropWhile is_space s;
          neg = (t \<noteq> [] \<and> hd t = CHR ''-'');
          u = (if t \<noteq> [] \<and> (hd t = CHR ''-'' \<or> hd t = CHR ''+'') then tl t else t)
      in if u \<noteq> [] \<and> is_digit (hd u)
         then Some ((if neg then - 1 else 1) * int (scan_digits 0 u))
         else None)"

definition child_process :: "world \<Rightarrow> int \<Rightarrow> bool" where
  "child_process w c_pid =
     (case proc_ppid w c_pid of None \<Rightarrow> False | Some ppid \<Rightarrow> ppid = shell_pid w)"

definition put_fg :: "world \<Rightarrow> string \<Rightarrow> os \<Rightarrow> os" where
  "put_fg w str s =
     (let c_pid = (case sscanf_d str of Some v \<Rightarrow> v | None \<Rightarrow> uninit_pid w)
      in if child_process w c_pid then snd (c_wait w c_pid False True s)
         else emit (Stderr No_such_child) s)"

text \<open>\<^verbatim>\<open>get_env_cmd(line, args, pager)\<close>; \<^verbatim>\<open>args[1] == NULL\<close> is \<open>length args < 2\<close>.\<close>

definition get_env_cmd :: "string list \<Rightarrow> string \<Rightarrow> string" where
  "get_env_cmd args pager =
     (if length args < 2 then ''printenv | sort | '' @ pager
      else ''printenv | sort | grep '' @ args ! 1 @ '' | '' @ pager)"

section \<open>Executing a command line\<close>

definition then_return :: "'a outcome \<Rightarrow> 'b \<Rightarrow> 'b outcome" where
  "then_return m v =
     (case m of
        Returns u s \<Rightarrow> Returns v s
      | Exits c s \<Rightarrow> Exits c s
      | Undefined_behaviour \<Rightarrow> Undefined_behaviour)"

text \<open>
  \<^verbatim>\<open>exec_cmdline\<close>, its loop over the commands (\<open>exec_stages\<close>: the commands from
  index \<open>i\<close> on), \<^verbatim>\<open>exec_cmd\<close> and \<^verbatim>\<open>check_env\<close> call one another: \<^verbatim>\<open>checkEnv\<close> submits a
  command line of its own. An argument vector and its count \<^verbatim>\<open>no_args\<close> are one list;
  \<^verbatim>\<open>exec_cmd\<close> reads \<^verbatim>\<open>args[0]\<close>, so it has no defined behaviour on an empty vector.
  The buffers \<^verbatim>\<open>pager\<close> and \<^verbatim>\<open>line\<close> of \<^verbatim>\<open>check_env\<close> hold \<open>STR_LEN\<close> characters. The text
  of the message "Command '...' failed" is recorded as the argument vector it is
  built from.
\<close>

function exec_cmdline :: "world \<Rightarrow> string \<Rightarrow> os \<Rightarrow> int outcome"
  and exec_stages :: "world \<Rightarrow> string list \<Rightarrow> nat \<Rightarrow> nat \<Rightarrow> os \<Rightarrow> int outcome"
  and exec_cmd :: "world \<Rightarrow> string list \<Rightarrow> nat \<Rightarrow> nat \<Rightarrow> os \<Rightarrow> int outcome"
  and check_env :: "world \<Rightarrow> string list \<Rightarrow> os \<Rightarrow> unit outcome"
where
  "exec_cmdline w line s =
     (case tokenize MAX_CMDS line ''|'' of
        None \<Rightarrow> Undefined_behaviour
      | Some cmds \<Rightarrow> exec_stages w cmds 0 (length cmds) s)"
| "exec_stages w [] i no_cmds s = Returns 0 s"
| "exec_stages w (c # cs) i no_cmds s =
     (case tokenize MAX_ARGS c '' '' of
        None \<Rightarrow> Undefined_behaviour
      | Some args \<Rightarrow>
          if length args = 0
          then Returns (int (i + 1)) (emit (Stderr Empty_command) s)
          else
            (case exec_cmd w args (i + 1) no_cmds s of
               Returns r s' \<Rightarrow>
                 if r = - 1
                 then Returns (int (i + 1)) (emit (Stderr (Command_failed args)) s')
                 else exec_stages w cs (i + 1) no_cmds s'
             | Exits e s' \<Rightarrow> Exits e s'
             | Undefined_behaviour \<Rightarrow> Undefined_behaviour))"
| "exec_cmd w args cmd no_cmds s =
     (if args = [] then Undefined_behaviour
      else if no_cmds = 1
      then
        (if hd args = ''cd''
         then (if length args = 1 then then_return (change_dir w ''~'' s) 0
               else if length args = 2 then then_return (change_dir w (args ! 1) s) 0
               else Returns (- 1) s)
         else if hd args = ''checkEnv''
         then (if length args \<le> 2 then then_return (check_env w args s) 0
               else Returns (- 1) s)
         else if hd args = ''exit''
         then (if length args = 1 then then_return (term_all w s) 0
               else Returns (- 1) s)
         else if hd args = ''fg''
         then (if length args = 2 then Returns 0 (put_fg w (args ! 1) s)
               else Returns (- 1) s)
         else if last args = ''&''
         then (if length args \<ge> 2 then fork_exec_wait w (butlast args) cmd no_cmds True s
               else Returns (- 1) s)
         else fork_exec_wait w args cmd no_cmds False s)
      else fork_exec_wait w args cmd no_cmds False s)"
| "check_env w args s =
     (let no_cmds = (if length args < 2 then 3 else 4)
      in case (case getenv w ''PAGER'' of
                 Some p \<Rightarrow> if length p \<le> STR_LEN then Some p else None
               | None \<Rightarrow> Some ''less'') of
           None \<Rightarrow> Undefined_behaviour
         | Some pager \<Rightarrow>
             if length (get_env_cmd args pager) > STR_LEN then Undefined_behaviour
             else
               (case exec_cmdline w (get_env_cmd args pager)
                       (emit (Stdout (Actual_command_line (get_env_cmd args pager))) s) of
                  Returns r s' \<Rightarrow>
                    if r = no_cmds \<and> pager = ''less''
                    then
                      (if length (get_env_cmd args ''more'') > STR_LEN
                       then Undefined_behaviour
                       else
                         then_return
                           (exec_cmdline w (get_env_cmd args ''more'')
                              (emit (Stdout (Actual_command_line (get_env_cmd args ''more''))) s'))
                           ())
                    else Returns () s'
                | Exits e s' \<Rightarrow> Exits e s'
                | Undefined_behaviour \<Rightarrow> Undefined_behaviour))"
  by pat_completeness auto
termination
  apply (relation "measures [
     (\<lambda>x. case x of
        Inl (Inl (w, line, s)) \<Rightarrow> (if length (strtok_all ''|'' [] line) = 1 then 1 else 0)
      | Inl (Inr (w, cmds, i, no_cmds, s)) \<Rightarrow> (if no_cmds = 1 then 1 else 0)
      | Inr (Inl (w, args, cmd, no_cmds, s)) \<Rightarrow> (if no_cmds = 1 then 1 else 0)
      | Inr (Inr (w, args, s)) \<Rightarrow> 1),
     (\<lambda>x. case x of
        Inl (Inl (w, line, s)) \<Rightarrow> 3
      | Inl (Inr (w, cmds, i, no_cmds, s)) \<Rightarrow> 2
      | Inr (Inl (w, args, cmd, no_cmds, s)) \<Rightarrow> 1
      | Inr (Inr (w, args, s)) \<Rightarrow> 0),
     (\<lambda>x. case x of
        Inl (Inl (w, line, s)) \<Rightarrow> 0
      | Inl (Inr (w, cmds, i, no_cmds, s)) \<Rightarrow> length cmds
      | Inr (Inl (w, args, cmd, no_cmds, s)) \<Rightarrow> 0
      | Inr (Inr (w, args, s)) \<Rightarrow> 0)]")
  apply simp_all
  apply (auto simp: tokenize_def get_env_cmd_def Let_def split: if_splits)
  done

declare exec_cmdline.simps [simp del] exec_stages.simps [simp del]
  exec_cmd.simps [simp del] check_env.simps [simp del]

section \<open>Reading a trace\<close>

text \<open>
  What a trace says about spawning: the pipes created and the stages forked, in the
  order of the calls.
\<close>

datatype spawn = Pipe_created | Forked_stage nat

definition spawn_of :: "event \<Rightarrow> spawn list" where
  "spawn_of e =
     (case e of
        Pipe_call (Some fd) \<Rightarrow> [Pipe_created]
      | Fork c_pid cmd code \<Rightarrow> [Forked_stage cmd]
      | _ \<Rightarrow> [])"

definition spawns :: "event list \<Rightarrow> spawn list" where
  "spawns tr = concat (map spawn_of tr)"

text \<open>The synchronous waits of a trace: the child waited for and what \<^verbatim>\<open>waitpid\<close> gave.\<close>

definition wait_of :: "event \<Rightarrow> (int \<times> int option) list" where
  "wait_of e = (case e of Waitpid c_pid r \<Rightarrow> [(c_pid, r)] | _ \<Rightarrow> [])"

definition waits :: "event list \<Rightarrow> (int \<times> int option) list" where
  "waits tr = concat (map wait_of tr)"

text \<open>The status \<^verbatim>\<open>c_wait\<close> returns after \<^verbatim>\<open>waitpid\<close> gave \<open>r\<close>.\<close>

definition returned_status :: "world \<Rightarrow> int option \<Rightarrow> int" where
  "returned_status w r = (case r of Some status \<Rightarrow> status | None \<Rightarrow> uninit_status w)"

text \<open>
  What the blocking \<^verbatim>\<open>waitpid\<close> gives for the child \<open>pid\<close> that was forked to run
  \<open>argv\<close>, when the kernel holds the state changes \<open>uncollected\<close>.
\<close>

definition awaited :: "world \<Rightarrow> (int \<times> int) list \<Rightarrow> int \<Rightarrow> string list \<Rightarrow> int option" where
  "awaited w uncollected pid argv =
     (case map_of uncollected pid of
        Some status \<Rightarrow> Some status
      | None \<Rightarrow>
          if wait_fails w pid then None
          else Some (if execvp_ok w argv then run_status w pid else W_EXITCODE EXIT_FAILURE 0))"

text \<open>The argument vector of a stage.\<close>

definition stage_args :: "string \<Rightarrow> string list" where
  "stage_args c = (case tokenize MAX_ARGS c '' '' of Some args \<Rightarrow> args | None \<Rightarrow> [])"

text \<open>The value a call returned, if it returned, and the events up to its end.\<close>

definition result_of :: "'a outcome \<Rightarrow> 'a option" where
  "result_of m = (case m of Returns v s \<Rightarrow> Some v | Exits c s \<Rightarrow> None | Undefined_behaviour \<Rightarrow> None)"

definition trace_of :: "'a outcome \<Rightarrow> event list" where
  "trace_of m = (case m of Returns v s \<Rightarrow> trace s | Exits c s \<Rightarrow> trace s | Undefined_behaviour \<Rightarrow> [])"

text \<open>The state changes a sweep collected, and the reports it printed.\<close>

definition reaped_of :: "event \<Rightarrow> (int \<times> int) list" where
  "reaped_of e = (case e of Reaped c_pid status \<Rightarrow> [(c_pid, status)] | _ \<Rightarrow> [])"

definition reaped :: "event list \<Rightarrow> (int \<times> int) list" where
  "reaped tr = concat (map reaped_of tr)"

definition report_of :: "event \<Rightarrow> message list" where
  "report_of e =
     (case e of
        Stdout (Terminated_normally c_pid) \<Rightarrow> [Terminated_normally c_pid]
      | Stdout (Terminated_by_a_signal c_pid) \<Rightarrow> [Terminated_by_a_signal c_pid]
      | Stdout (Stopped c_pid) \<Rightarrow> [Stopped c_pid]
      | _ \<Rightarrow> [])"

definition reports :: "event list \<Rightarrow> message list" where
  "reports tr = concat (map report_of tr)"

text \<open>A state change arrives at the kernel: some children exited or stopped.\<close>

definition arrive :: "(int \<times> int) list \<Rightarrow> os \<Rightarrow> os" where
  "arrive changes s = s\<lparr>pending := pending s @ changes\<rparr>"

text \<open>The names \<^verbatim>\<open>exec_cmd\<close> takes for built-in commands in a single-stage line.\<close>

definition builtin_names :: "string list" where
  "builtin_names = [''cd'', ''checkEnv'', ''exit'', ''fg'']"

text \<open>The report \<^verbatim>\<open>print_status\<close> prints for one collected state change.\<close>

definition report_for :: "int \<times> int \<Rightarrow> message list" where
  "report_for c = (case status_message (fst c) (snd c) of Some m \<Rightarrow> [m] | None \<Rightarrow> [])"

text \<open>
  A stage that \<^verbatim>\<open>exec_cmdline\<close> hands to \<^verbatim>\<open>exec_cmd\<close>: its text has at least one
  argument, and no more than the vector \<^verbatim>\<open>args\<close> holds.
\<close>

definition has_args :: "string \<Rightarrow> bool" where
  "has_args c = (case tokenize MAX_ARGS c '' '' of Some args \<Rightarrow> args \<noteq> [] | None \<Rightarrow> False)"

text \<open>
  A single-stage line that \<^verbatim>\<open>exec_cmd\<close> forks a process for: its first argument is
  not the name of a built-in command and it is not the background marker alone.
\<close>

definition external_command :: "string \<Rightarrow> bool" where
  "external_command c =
     (case tokenize MAX_ARGS c '' '' of
        Some args \<Rightarrow> args \<noteq> [] \<and> hd args \<notin> set builtin_names \<and> args \<noteq> [''&'']
      | None \<Rightarrow> False)"

text \<open>
  The argument counts, the command name included, with which the specification says
  each built-in command is recognized.
\<close>

definition builtin_arities :: "string \<Rightarrow> nat list" where
  "builtin_arities name =
     (if name = ''cd'' then [1, 2]
      else if name = ''checkEnv'' then [1, 2]
      else if name = ''exit'' then [1]
      else if name = ''fg'' then [2]
      else [])"

text \<open>
  The command lines \<^verbatim>\<open>checkEnv\<close> announces, and the programs the forked children were
  to load, in the order of the \<^verbatim>\<open>fork\<close> calls.
\<close>

definition command_line_of :: "event \<Rightarrow> string list" where
  "command_line_of e = (case e of Stdout (Actual_command_line l) \<Rightarrow> [l] | _ \<Rightarrow> [])"

definition command_lines :: "event list \<Rightarrow> string list" where
  "command_lines tr = concat (map command_line_of tr)"

definition execs_of :: "caction \<Rightarrow> string list list" where
  "execs_of a = (case a of C_execvp argv \<Rightarrow> [argv] | _ \<Rightarrow> [])"

definition program_of :: "event \<Rightarrow> string list list" where
  "program_of e = (case e of Fork c_pid cmd code \<Rightarrow> concat (map execs_of code) | _ \<Rightarrow> [])"

definition programs :: "event list \<Rightarrow> string list list" where
  "programs tr = concat (map program_of tr)"

section \<open>A concrete world\<close>

text \<open>
  A world and a state to run the model on: the shell is process 100 on a terminal,
  children get the process ids 101, 102, ..., pipes the descriptors (3, 4), (5, 6),
  ..., every program but \<^verbatim>\<open>nosuch\<close> can be loaded and exits with status 0.
\<close>

definition example_world :: world where
  "example_world =
     \<lparr>shell_pid = 100, polling = False,
      pipe_result = (\<lambda>k. Some (3 + 2 * int k, 4 + 2 * int k)),
      fork_result = (\<lambda>k. 101 + int k),
      execvp_ok = (\<lambda>argv. argv \<noteq> [] \<and> hd argv \<noteq> ''nosuch''),
      run_status = (\<lambda>pid. 0),
      wait_fails = (\<lambda>pid. False),
      uninit_status = 0, uninit_pid = 0,
      has_tty = True,
      pgrp_in_session = (\<lambda>pgid. True),
      tty_while_blocked = (\<lambda>pid. Some pid),
      child_pgid = (\<lambda>pid. pid),
      kill_ok = (\<lambda>pid sig. True),
      chdir_ok = (\<lambda>path. True),
      getenv = (\<lambda>name. if name = ''HOME'' then Some ''/home/tj'' else None),
      proc_dir = Some [],
      proc_ppid = (\<lambda>pid. None)\<rparr>"

definition initial_os :: os where
  "initial_os =
     \<lparr>trace = [], pipes_made = 0, forks_made = 0, static_pipe_fds = None, static_n = 0,
      tty_fg = 100, forked = [], pending = []\<rparr>"

text \<open>
  Two variants of it: one where the program \<^verbatim>\<open>less\<close> cannot be loaded, and one where the
  variable \<^verbatim>\<open>PAGER\<close> is set, to \<^verbatim>\<open>cat\<close>.
\<close>

definition world_without_less :: world where
  "world_without_less = example_world\<lparr>execvp_ok := (\<lambda>argv. argv \<noteq> [] \<and> hd argv \<noteq> ''less'')\<rparr>"

definition world_with_pager :: world where
  "world_with_pager =
     example_world\<lparr>getenv := (\<lambda>name. if name = ''PAGER'' then Some ''cat'' else None)\<rparr>"

text \<open>
  Worlds where the handler of \<^verbatim>\<open>SIGCHLD\<close> collects every child before \<^verbatim>\<open>c_wait\<close> calls
  \<^verbatim>\<open>waitpid\<close>, so that the blocking \<^verbatim>\<open>waitpid\<close> fails and \<^verbatim>\<open>c_wait\<close> returns its local
  \<^verbatim>\<open>status\<close> as it found it: holding 0 where \<^verbatim>\<open>less\<close> cannot be loaded, and holding 256
  where every program can be.
\<close>

definition race_world_without_less :: world where
  "race_world_without_less = world_without_less\<lparr>wait_fails := (\<lambda>pid. True)\<rparr>"

definition race_world_status_256 :: world where
  "race_world_status_256 = example_world\<lparr>wait_fails := (\<lambda>pid. True), uninit_status := 256\<rparr>"

section \<open>Basic facts\<close>

lemma emit_fields [simp]:
  "trace (emit e s) = trace s @ [e]"
  "pipes_made (emit e s) = pipes_made s"
  "forks_made (emit e s) = forks_made s"
  "static_pipe_fds (emit e s) = static_pipe_fds s"
  "static_n (emit e s) = static_n s"
  "tty_fg (emit e s) = tty_fg s"
  "forked (emit e s) = forked s"
  "pending (emit e s) = pending s"
  by (simp_all add: emit_def)

lemma spawns_append [simp]: "spawns (a @ b) = spawns a @ spawns b"
  by (simp add: spawns_def)

lemma waits_append [simp]: "waits (a @ b) = waits a @ waits b"
  by (simp add: waits_def)

lemma spawns_Nil [simp]: "spawns [] = []"
  by (simp add: spawns_def)

lemma spawns_Cons [simp]: "spawns (e # es) = spawn_of e @ spawns es"
  by (simp add: spawns_def)

lemma waits_Nil [simp]: "waits [] = []"
  by (simp add: waits_def)

lemma waits_Cons [simp]: "waits (e # es) = wait_of e @ waits es"
  by (simp add: waits_def)

lemma spawn_of_simps [simp]:
  "spawn_of (Pipe_call (Some fd)) = [Pipe_created]"
  "spawn_of (Pipe_call None) = []"
  "spawn_of (Fork c_pid cmd code) = [Forked_stage cmd]"
  "spawn_of Fork_failed = []"
  "spawn_of (Close fd') = []"
  "spawn_of (Waitpid p r) = []"
  "spawn_of (Reaped p st) = []"
  "spawn_of (Tcsetpgrp g b) = []"
  "spawn_of (Kill p sg b) = []"
  "spawn_of (Chdir d b) = []"
  "spawn_of (Sleep k) = []"
  "spawn_of (Stdout m) = []"
  "spawn_of (Stderr m) = []"
  by (simp_all add: spawn_of_def)

lemma wait_of_simps [simp]:
  "wait_of (Pipe_call x) = []"
  "wait_of (Fork c_pid cmd code) = []"
  "wait_of Fork_failed = []"
  "wait_of (Close fd') = []"
  "wait_of (Waitpid p r) = [(p, r)]"
  "wait_of (Reaped p st) = []"
  "wait_of (Tcsetpgrp g b) = []"
  "wait_of (Kill p sg b) = []"
  "wait_of (Chdir d b) = []"
  "wait_of (Sleep k) = []"
  "wait_of (Stdout m) = []"
  "wait_of (Stderr m) = []"
  by (simp_all add: wait_of_def)

lemma print_status_obs:
  "spawns (trace (print_status p st s)) = spawns (trace s)"
  "waits (trace (print_status p st s)) = waits (trace s)"
  "pipes_made (print_status p st s) = pipes_made s"
  "forks_made (print_status p st s) = forks_made s"
  "static_pipe_fds (print_status p st s) = static_pipe_fds s"
  "static_n (print_status p st s) = static_n s"
  by (simp_all add: print_status_def split: option.splits)

lemma tcsetpgrp_obs:
  "spawns (trace (tcsetpgrp_or_perror w g s)) = spawns (trace s)"
  "waits (trace (tcsetpgrp_or_perror w g s)) = waits (trace s)"
  "pipes_made (tcsetpgrp_or_perror w g s) = pipes_made s"
  "forks_made (tcsetpgrp_or_perror w g s) = forks_made s"
  "static_pipe_fds (tcsetpgrp_or_perror w g s) = static_pipe_fds s"
  "static_n (tcsetpgrp_or_perror w g s) = static_n s"
  by (simp_all add: tcsetpgrp_or_perror_def)

lemma waitpid_blocking_obs:
  "\<exists>r s'. waitpid_blocking w p s = (r, s') \<and>
     spawns (trace s') = spawns (trace s) \<and>
     waits (trace s') = waits (trace s) @ [(p, r)] \<and>
     pipes_made s' = pipes_made s \<and> forks_made s' = forks_made s \<and>
     static_pipe_fds s' = static_pipe_fds s \<and> static_n s' = static_n s \<and>
     (\<forall>argv. map_of (forked s) p = Some argv \<longrightarrow> r = awaited w (pending s) p argv)"
  by (auto simp: waitpid_blocking_def awaited_def child_fate_def Let_def split: option.splits)

lemma c_wait_obs:
  "\<exists>r s'. c_wait w p timed False s = (returned_status w r, s') \<and>
     spawns (trace s') = spawns (trace s) \<and>
     waits (trace s') = waits (trace s) @ [(p, r)] \<and>
     pipes_made s' = pipes_made s \<and> forks_made s' = forks_made s \<and>
     static_pipe_fds s' = static_pipe_fds s \<and> static_n s' = static_n s \<and>
     (\<forall>argv. map_of (forked s) p = Some argv \<longrightarrow> r = awaited w (pending s) p argv)"
proof -
  obtain r s2 where w: "waitpid_blocking w p s = (r, s2)"
    and o: "spawns (trace s2) = spawns (trace s)" "waits (trace s2) = waits (trace s) @ [(p, r)]"
     "pipes_made s2 = pipes_made s" "forks_made s2 = forks_made s"
     "static_pipe_fds s2 = static_pipe_fds s" "static_n s2 = static_n s"
    and a: "\<forall>argv. map_of (forked s) p = Some argv \<longrightarrow> r = awaited w (pending s) p argv"
    using waitpid_blocking_obs [of w p s] by blast
  define s3 where "s3 = tcsetpgrp_or_perror w (getpgid w (shell_pid w))
        (case r of Some status \<Rightarrow>
             (let s' = print_status p status s2
              in if timed then emit (Stdout Run_time_was) s' else s')
         | None \<Rightarrow> s2)"
  have "c_wait w p timed False s = (returned_status w r, s3)"
    by (simp add: c_wait_def w returned_status_def Let_def s3_def)
  moreover have "spawns (trace s3) = spawns (trace s)"
    "waits (trace s3) = waits (trace s) @ [(p, r)]"
    "pipes_made s3 = pipes_made s" "forks_made s3 = forks_made s"
    "static_pipe_fds s3 = static_pipe_fds s" "static_n s3 = static_n s"
    unfolding s3_def
    by (cases r; simp add: o Let_def print_status_obs tcsetpgrp_obs)+
  ultimately show ?thesis
    using a by blast
qed

lemma make_pipes_ok:
  "\<forall>j<k. pipe_result w (pipes_made s + j) \<noteq> None \<Longrightarrow>
   \<exists>fds s'. make_pipes w k s = Returns fds s' \<and> length fds = k \<and>
     pipes_made s' = pipes_made s + k \<and> forks_made s' = forks_made s \<and>
     static_pipe_fds s' = static_pipe_fds s \<and> static_n s' = static_n s \<and>
     spawns (trace s') = spawns (trace s) @ replicate k Pipe_created \<and>
     waits (trace s') = waits (trace s) \<and> pending s' = pending s"
proof (induction k arbitrary: s)
  case 0
  then show ?case by simp
next
  case (Suc k)
  from Suc.prems have "pipe_result w (pipes_made s + 0) \<noteq> None" by blast
  then obtain fd where fd: "pipe_result w (pipes_made s) = Some fd" by auto
  let ?s1 = "emit (Pipe_call (Some fd)) (s\<lparr>pipes_made := pipes_made s + 1\<rparr>)"
  have "\<forall>j<k. pipe_result w (pipes_made ?s1 + j) \<noteq> None"
  proof (intro allI impI)
    fix j assume "j < k"
    then have "Suc j < Suc k" by simp
    with Suc.prems have "pipe_result w (pipes_made s + Suc j) \<noteq> None" by blast
    then show "pipe_result w (pipes_made ?s1 + j) \<noteq> None" by simp
  qed
  from Suc.IH [OF this] obtain fds s' where
    "make_pipes w k ?s1 = Returns fds s'" "length fds = k"
    "pipes_made s' = pipes_made ?s1 + k" "forks_made s' = forks_made ?s1"
    "static_pipe_fds s' = static_pipe_fds ?s1" "static_n s' = static_n ?s1"
    "spawns (trace s') = spawns (trace ?s1) @ replicate k Pipe_created"
    "waits (trace s') = waits (trace ?s1)" "pending s' = pending ?s1"
    by blast
  then show ?case
    by (simp add: fd replicate_app_Cons_same)
qed

lemma fork_first:
  assumes n: "2 \<le> n"
    and pipes: "\<forall>j<n - 1. pipe_result w (pipes_made s + j) \<noteq> None"
    and fork: "0 < fork_result w (forks_made s)"
  shows "\<exists>fds s'. fork_exec_wait w args 1 n False s = Returns 0 s' \<and>
     static_pipe_fds s' = Some fds \<and> length fds = n - 1 \<and> static_n s' = 0 \<and>
     pipes_made s' = pipes_made s + (n - 1) \<and> forks_made s' = forks_made s + 1 \<and>
     spawns (trace s') = spawns (trace s) @ replicate (n - 1) Pipe_created @ [Forked_stage 1] \<and>
     waits (trace s') = waits (trace s) \<and> pending s' = pending s"
proof -
  from make_pipes_ok [OF pipes] obtain fds s1 where
    mp: "make_pipes w (n - 1) s = Returns fds s1" and l: "length fds = n - 1"
    and o: "pipes_made s1 = pipes_made s + (n - 1)" "forks_made s1 = forks_made s"
    "spawns (trace s1) = spawns (trace s) @ replicate (n - 1) Pipe_created"
    "waits (trace s1) = waits (trace s)" "pending s1 = pending s"
    by blast
  from n l have pos: "0 < length fds" by simp
  show ?thesis
    using n fork pos mp l o
    by (simp add: fork_exec_wait_def open_pipes_def parent_wait_def Let_def
        EXIT_FAILURE_def WEXITSTATUS_def)
qed

lemma fork_middle:
  assumes n: "1 < cmd" "cmd < n"
    and inv: "static_pipe_fds s = Some fds" "length fds = n - 1" "static_n s = cmd - 2"
    and fork: "0 < fork_result w (forks_made s)"
  shows "\<exists>s'. fork_exec_wait w args cmd n False s = Returns 0 s' \<and>
     static_pipe_fds s' = Some fds \<and> static_n s' = cmd - 1 \<and>
     pipes_made s' = pipes_made s \<and> forks_made s' = forks_made s + 1 \<and>
     spawns (trace s') = spawns (trace s) @ [Forked_stage cmd] \<and>
     waits (trace s') = waits (trace s) \<and> pending s' = pending s"
proof -
  from n inv have "Suc (cmd - 2) < length fds" by simp
  then show ?thesis
    using n inv fork
    by (simp add: fork_exec_wait_def open_pipes_def parent_wait_def Let_def
        EXIT_FAILURE_def WEXITSTATUS_def)
qed

lemma parent_wait_last:
  "\<exists>r s'. parent_wait w pid n n False fds s =
       Returns (if WEXITSTATUS (returned_status w r) = EXIT_FAILURE then - 1 else 0) s' \<and>
     pipes_made s' = pipes_made s \<and> forks_made s' = forks_made s \<and>
     spawns (trace s') = spawns (trace s) \<and>
     waits (trace s') = waits (trace s) @ [(pid, r)] \<and>
     (\<forall>argv. map_of (forked s) pid = Some argv \<longrightarrow> r = awaited w (pending s) pid argv)"
proof -
  define s1 where "s1 = (if n > 1 then emit (Close (snd (fds ! static_n s))) s else s)"
  define s2 where "s2 = emit (Stdout (Spawned_in_foreground pid)) s1"
  have s2: "spawns (trace s2) = spawns (trace s)" "waits (trace s2) = waits (trace s)"
    "pipes_made s2 = pipes_made s" "forks_made s2 = forks_made s"
    "forked s2 = forked s" "pending s2 = pending s"
    by (simp_all add: s2_def s1_def)
  from c_wait_obs [of w pid True s2] obtain r s3 where
    cw: "c_wait w pid True False s2 = (returned_status w r, s3)"
    and o: "spawns (trace s3) = spawns (trace s2)"
     "waits (trace s3) = waits (trace s2) @ [(pid, r)]"
     "pipes_made s3 = pipes_made s2" "forks_made s3 = forks_made s2"
     "\<forall>argv. map_of (forked s2) pid = Some argv \<longrightarrow> r = awaited w (pending s2) pid argv"
    by blast
  have "parent_wait w pid n n False fds s =
     Returns (if WEXITSTATUS (returned_status w r) = EXIT_FAILURE then - 1 else 0)
       (if n > 1 then s3\<lparr>static_pipe_fds := None\<rparr> else s3)"
    unfolding parent_wait_def Let_def s1_def [symmetric]
    by (simp add: s2_def [symmetric] cw)
  then show ?thesis
    using o s2 by (cases "n > 1") auto
qed

lemma fork_exec_wait_parent:
  assumes "0 < fork_result w (forks_made s)"
    and "cmd \<noteq> 1 \<or> n \<le> 1"
    and "n \<le> 1 \<or> \<not> cmd < n"
    and "n \<le> 1 \<and> fds = [] \<or> 1 < n \<and> static_pipe_fds s = Some fds \<and> static_n s < length fds"
  shows "fork_exec_wait w args cmd n bg s =
     parent_wait w (fork_result w (forks_made s)) cmd n bg fds
       (emit (Fork (fork_result w (forks_made s)) cmd (child_code w args cmd n bg fds (static_n s)))
          (s\<lparr>forks_made := Suc (forks_made s),
             forked := (fork_result w (forks_made s), args) # forked s\<rparr>))"
  using assms by (auto simp: fork_exec_wait_def open_pipes_def Let_def)

lemma fork_last:
  assumes n: "cmd = n" "n = 1 \<or> (\<exists>fds. static_pipe_fds s = Some fds \<and> static_n s < length fds)"
    and fork: "0 < fork_result w (forks_made s)"
  shows "\<exists>r s'. fork_exec_wait w args cmd n False s =
       Returns (if WEXITSTATUS (returned_status w r) = EXIT_FAILURE then - 1 else 0) s' \<and>
     pipes_made s' = pipes_made s \<and> forks_made s' = forks_made s + 1 \<and>
     spawns (trace s') = spawns (trace s) @ [Forked_stage cmd] \<and>
     waits (trace s') = waits (trace s) @ [(fork_result w (forks_made s), r)] \<and>
     r = awaited w (pending s) (fork_result w (forks_made s)) args"
proof -
  let ?pid = "fork_result w (forks_made s)"
  obtain fds where fds:
    "n \<le> 1 \<and> fds = [] \<or> 1 < n \<and> static_pipe_fds s = Some fds \<and> static_n s < length fds"
    using n(2) by (cases "n > 1") auto
  let ?X = "emit (Fork ?pid n (child_code w args n n False fds (static_n s)))
          (s\<lparr>forks_made := Suc (forks_made s), forked := (?pid, args) # forked s\<rparr>)"
  have eq: "fork_exec_wait w args n n False s = parent_wait w ?pid n n False fds ?X"
    using fork fds by (intro fork_exec_wait_parent) auto
  from parent_wait_last [of w ?pid n fds ?X] obtain r s' where
    pw: "parent_wait w ?pid n n False fds ?X =
       Returns (if WEXITSTATUS (returned_status w r) = EXIT_FAILURE then - 1 else 0) s'"
    and o: "pipes_made s' = pipes_made ?X" "forks_made s' = forks_made ?X"
     "spawns (trace s') = spawns (trace ?X)"
     "waits (trace s') = waits (trace ?X) @ [(?pid, r)]"
     "\<forall>argv. map_of (forked ?X) ?pid = Some argv \<longrightarrow> r = awaited w (pending ?X) ?pid argv"
    by blast
  have "pipes_made s' = pipes_made s \<and> forks_made s' = forks_made s + 1 \<and>
     spawns (trace s') = spawns (trace s) @ [Forked_stage n] \<and>
     waits (trace s') = waits (trace s) @ [(?pid, r)] \<and>
     r = awaited w (pending s) ?pid args"
    using o by simp
  with eq pw n(1) show ?thesis by auto
qed

section \<open>The synchronous wait gives the terminal back\<close>

lemma tcsetpgrp_shell:
  "trace (tcsetpgrp_or_perror w (shell_pid w) s) = trace s @
     (if has_tty w then [Tcsetpgrp (shell_pid w) True]
      else [Tcsetpgrp (shell_pid w) False, Stderr (Perror ''tcsetpgrp'')])"
  "has_tty w \<Longrightarrow> tty_fg (tcsetpgrp_or_perror w (shell_pid w) s) = shell_pid w"
  by (simp_all add: tcsetpgrp_or_perror_def)

text \<open>
  Claim C5. Whatever \<^verbatim>\<open>c_wait\<close> is called with and whatever \<^verbatim>\<open>waitpid\<close> gives (the child
  exited, was killed, only stopped, or the call failed), the last system call of
  \<^verbatim>\<open>c_wait\<close> is \<^verbatim>\<open>tcsetpgrp\<close> on the shell's own process group, and on a terminal the
  foreground process group is the shell's when \<^verbatim>\<open>c_wait\<close> returns.
\<close>

theorem c_wait_reclaims_terminal:
  "(\<exists>before. trace (snd (c_wait w c_pid timed cont s)) =
       before @ (if has_tty w then [Tcsetpgrp (shell_pid w) True]
                 else [Tcsetpgrp (shell_pid w) False, Stderr (Perror ''tcsetpgrp'')])) \<and>
   (has_tty w \<longrightarrow> tty_fg (snd (c_wait w c_pid timed cont s)) = shell_pid w)"
  by (simp add: c_wait_def Let_def split_beta getpgid_def tcsetpgrp_shell)

text \<open>
  The child 101 holds the terminal and is stopped by \<^verbatim>\<open>SIGSTOP\<close> (wait status
  \<open>0x137f\<close>): the shell, process 100, has the terminal back.
\<close>

theorem c_wait_reclaims_terminal_witness:
  "has_tty (example_world\<lparr>run_status := (\<lambda>pid. 0x137f)\<rparr>) \<and>
   WIFSTOPPED 0x137f \<and>
   c_wait (example_world\<lparr>run_status := (\<lambda>pid. 0x137f)\<rparr>) 101 True False
       (initial_os\<lparr>tty_fg := 101\<rparr>) =
     (0x137f,
      initial_os\<lparr>trace := [Waitpid 101 (Some 0x137f), Stdout (Stopped 101),
                            Stdout Run_time_was, Tcsetpgrp 100 True]\<rparr>) \<and>
   tty_fg (snd (c_wait (example_world\<lparr>run_status := (\<lambda>pid. 0x137f)\<rparr>) 101 True False
                  (initial_os\<lparr>tty_fg := 101\<rparr>))) = 100"
  using c_wait_reclaims_terminal
    [of "example_world\<lparr>run_status := (\<lambda>pid. 0x137f)\<rparr>" 101 True False
        "initial_os\<lparr>tty_fg := 101\<rparr>"]
  by (simp add: example_world_def initial_os_def c_wait_def waitpid_blocking_def child_fate_def
      print_status_def status_message_def WIFSTOPPED_def WIFEXITED_def WIFSIGNALED_def
      tcsetpgrp_or_perror_def getpgid_def emit_def Let_def)

section \<open>Reaping sweeps\<close>

lemma reaped_append [simp]: "reaped (a @ b) = reaped a @ reaped b"
  by (simp add: reaped_def)

lemma reports_append [simp]: "reports (a @ b) = reports a @ reports b"
  by (simp add: reports_def)

lemma reaped_single [simp]:
  "reaped [Reaped p st] = [(p, st)]" "reaped [Stdout m] = []"
  by (simp_all add: reaped_def reaped_of_def)

lemma reports_Reaped [simp]: "reports [Reaped p st] = []"
  by (simp add: reports_def report_of_def)

lemma print_status_reports:
  "reaped (trace (print_status p st s)) = reaped (trace s)"
  "reports (trace (print_status p st s)) = reports (trace s) @ report_for (p, st)"
  "pending (print_status p st s) = pending s"
  by (auto simp: print_status_def report_for_def status_message_def reports_def report_of_def
      split: option.splits if_splits)

lemma sweep_empty: "pending s = [] \<Longrightarrow> sigchld_handler s = s"
  by (subst sigchld_handler.simps) (simp add: waitpid_any_nohang_def)

lemma sweep_positive:
  "pending s = (p, st) # rest \<Longrightarrow> 0 < p \<Longrightarrow>
   sigchld_handler s =
     sigchld_handler (print_status p st (emit (Reaped p st) (s\<lparr>pending := rest\<rparr>)))"
  by (subst sigchld_handler.simps) (simp add: waitpid_any_nohang_def)

lemma sweep_collects:
  "pending s = ps \<Longrightarrow> \<forall>c\<in>set ps. 0 < fst c \<Longrightarrow>
   pending (sigchld_handler s) = [] \<and>
   reaped (trace (sigchld_handler s)) = reaped (trace s) @ ps \<and>
   reports (trace (sigchld_handler s)) = reports (trace s) @ concat (map report_for ps)"
proof (induction ps arbitrary: s)
  case Nil
  then show ?case by (simp add: sweep_empty)
next
  case (Cons c rest)
  obtain p st where c: "c = (p, st)" by (cases c)
  let ?s1 = "print_status p st (emit (Reaped p st) (s\<lparr>pending := rest\<rparr>))"
  from Cons.prems c have step: "sigchld_handler s = sigchld_handler ?s1"
    by (intro sweep_positive) auto
  have "pending ?s1 = rest" by (simp add: print_status_reports)
  moreover from Cons.prems have "\<forall>c\<in>set rest. 0 < fst c" by simp
  ultimately have "pending (sigchld_handler ?s1) = [] \<and>
     reaped (trace (sigchld_handler ?s1)) = reaped (trace ?s1) @ rest \<and>
     reports (trace (sigchld_handler ?s1)) = reports (trace ?s1) @ concat (map report_for rest)"
    by (rule Cons.IH)
  then show ?case
    by (simp add: step c print_status_reports)
qed

text \<open>
  Claim C6. A sweep collects every state change the kernel holds exactly once, in the
  kernel's order, prints the report of each once, and leaves none behind; so a
  second sweep right after it changes nothing, and a sweep made after further state
  changes arrived collects those only. Process ids are positive.
\<close>

theorem sweep_reports_once:
  assumes "\<forall>c\<in>set (pending s). 0 < fst c" and "\<forall>c\<in>set later. 0 < fst c"
  shows "pending (sigchld_handler s) = [] \<and>
     reaped (trace (sigchld_handler s)) = reaped (trace s) @ pending s \<and>
     reports (trace (sigchld_handler s)) = reports (trace s) @ concat (map report_for (pending s)) \<and>
     sigchld_handler (sigchld_handler s) = sigchld_handler s \<and>
     reaped (trace (sigchld_handler (arrive later (sigchld_handler s)))) =
       reaped (trace s) @ pending s @ later"
proof -
  from sweep_collects [OF refl assms(1)]
  have a: "pending (sigchld_handler s) = []"
    "reaped (trace (sigchld_handler s)) = reaped (trace s) @ pending s"
    "reports (trace (sigchld_handler s)) = reports (trace s) @ concat (map report_for (pending s))"
    by simp_all
  have b: "sigchld_handler (sigchld_handler s) = sigchld_handler s"
    using a(1) by (rule sweep_empty)
  have "pending (arrive later (sigchld_handler s)) = later"
    by (simp add: arrive_def a(1))
  from sweep_collects [OF this assms(2)]
  have "reaped (trace (sigchld_handler (arrive later (sigchld_handler s)))) =
     reaped (trace (arrive later (sigchld_handler s))) @ later"
    by simp
  then have c: "reaped (trace (sigchld_handler (arrive later (sigchld_handler s)))) =
       reaped (trace s) @ pending s @ later"
    by (simp add: arrive_def a(2))
  from a b c show ?thesis by simp
qed

text \<open>
  Child 101 exited, 102 was killed by signal 9, 103 was stopped; 104 exits after the
  first sweep.
\<close>

theorem sweep_reports_once_witness:
  "list_all (\<lambda>c. 0 < fst c) (pending (initial_os\<lparr>pending := [(101, 0), (102, 9), (103, 0x137f)]\<rparr>)) \<and>
   list_all (\<lambda>c. 0 < fst c) [(104 :: int, 256 :: int)] \<and>
   sigchld_handler (initial_os\<lparr>pending := [(101, 0), (102, 9), (103, 0x137f)]\<rparr>) =
     initial_os\<lparr>trace := [Reaped 101 0, Stdout (Terminated_normally 101),
                           Reaped 102 9, Stdout (Terminated_by_a_signal 102),
                           Reaped 103 0x137f, Stdout (Stopped 103)]\<rparr> \<and>
   sigchld_handler (sigchld_handler (initial_os\<lparr>pending := [(101, 0), (102, 9), (103, 0x137f)]\<rparr>)) =
     sigchld_handler (initial_os\<lparr>pending := [(101, 0), (102, 9), (103, 0x137f)]\<rparr>) \<and>
   reaped (trace (sigchld_handler (arrive [(104, 256)]
       (sigchld_handler (initial_os\<lparr>pending := [(101, 0), (102, 9), (103, 0x137f)]\<rparr>))))) =
     [(101, 0), (102, 9), (103, 0x137f), (104, 256)]"
  using sweep_reports_once [of "initial_os\<lparr>pending := [(101, 0), (102, 9), (103, 0x137f)]\<rparr>" "[(104, 256)]"]
  by (simp add: initial_os_def sigchld_handler.simps waitpid_any_nohang_def print_status_def
      status_message_def WIFSTOPPED_def WIFEXITED_def WIFSIGNALED_def emit_def Let_def
      reaped_def reaped_of_def arrive_def)

section \<open>The stages of a pipeline\<close>

lemma exec_cmd_piping:
  "n \<noteq> 1 \<Longrightarrow> args \<noteq> [] \<Longrightarrow> exec_cmd w args cmd n s = fork_exec_wait w args cmd n False s"
  by (simp add: exec_cmd.simps)

lemma has_argsE:
  assumes "has_args c"
  obtains args where "tokenize MAX_ARGS c '' '' = Some args" "args \<noteq> []"
  using assms by (auto simp: has_args_def split: option.splits)

lemma stage_first:
  assumes n: "2 \<le> n" and c: "has_args c"
    and pipes: "\<forall>j<n - 1. pipe_result w (pipes_made s + j) \<noteq> None"
    and fork: "0 < fork_result w (forks_made s)"
  shows "\<exists>fds s'. exec_stages w (c # cs) 0 n s = exec_stages w cs 1 n s' \<and>
     static_pipe_fds s' = Some fds \<and> length fds = n - 1 \<and> static_n s' = 0 \<and>
     pipes_made s' = pipes_made s + (n - 1) \<and> forks_made s' = forks_made s + 1 \<and>
     spawns (trace s') = spawns (trace s) @ replicate (n - 1) Pipe_created @ [Forked_stage 1] \<and>
     waits (trace s') = waits (trace s) \<and> pending s' = pending s"
proof -
  from c obtain args where a: "tokenize MAX_ARGS c '' '' = Some args" "args \<noteq> []"
    by (rule has_argsE)
  from fork_first [OF n pipes fork, of args] obtain fds s' where
    f: "fork_exec_wait w args 1 n False s = Returns 0 s'"
    and o: "static_pipe_fds s' = Some fds" "length fds = n - 1" "static_n s' = 0"
     "pipes_made s' = pipes_made s + (n - 1)" "forks_made s' = forks_made s + 1"
     "spawns (trace s') = spawns (trace s) @ replicate (n - 1) Pipe_created @ [Forked_stage 1]"
     "waits (trace s') = waits (trace s)" "pending s' = pending s"
    by blast
  from n a have "exec_cmd w args 1 n s = fork_exec_wait w args 1 n False s"
    by (intro exec_cmd_piping) auto
  with a f have "exec_stages w (c # cs) 0 n s = exec_stages w cs 1 n s'"
    by (simp add: exec_stages.simps)
  with o show ?thesis by blast
qed

lemma stage_middle:
  assumes n: "1 \<le> i" "i + 1 < n" and c: "has_args c"
    and inv: "static_pipe_fds s = Some fds" "length fds = n - 1" "static_n s = i - 1"
    and fork: "0 < fork_result w (forks_made s)"
  shows "\<exists>s'. exec_stages w (c # cs) i n s = exec_stages w cs (i + 1) n s' \<and>
     static_pipe_fds s' = Some fds \<and> static_n s' = i \<and>
     pipes_made s' = pipes_made s \<and> forks_made s' = forks_made s + 1 \<and>
     spawns (trace s') = spawns (trace s) @ [Forked_stage (i + 1)] \<and>
     waits (trace s') = waits (trace s) \<and> pending s' = pending s"
proof -
  from c obtain args where a: "tokenize MAX_ARGS c '' '' = Some args" "args \<noteq> []"
    by (rule has_argsE)
  have "\<exists>s'. fork_exec_wait w args (i + 1) n False s = Returns 0 s' \<and>
     static_pipe_fds s' = Some fds \<and> static_n s' = (i + 1) - 1 \<and>
     pipes_made s' = pipes_made s \<and> forks_made s' = forks_made s + 1 \<and>
     spawns (trace s') = spawns (trace s) @ [Forked_stage (i + 1)] \<and>
     waits (trace s') = waits (trace s) \<and> pending s' = pending s"
    using n inv fork by (intro fork_middle) auto
  then obtain s' where
    f: "fork_exec_wait w args (i + 1) n False s = Returns 0 s'"
    and o: "static_pipe_fds s' = Some fds" "static_n s' = i"
     "pipes_made s' = pipes_made s" "forks_made s' = forks_made s + 1"
     "spawns (trace s') = spawns (trace s) @ [Forked_stage (i + 1)]"
     "waits (trace s') = waits (trace s)" "pending s' = pending s"
    by auto
  from n a have "exec_cmd w args (i + 1) n s = fork_exec_wait w args (i + 1) n False s"
    by (intro exec_cmd_piping) auto
  with a f have "exec_stages w (c # cs) i n s = exec_stages w cs (i + 1) n s'"
    by (simp add: exec_stages.simps)
  with o show ?thesis by blast
qed

lemma stage_last:
  assumes n: "i + 1 = n" "2 \<le> n" and c: "has_args c"
    and inv: "static_pipe_fds s = Some fds" "static_n s < length fds"
    and fork: "0 < fork_result w (forks_made s)"
  shows "\<exists>r s'. exec_stages w [c] i n s =
       Returns (if WEXITSTATUS (returned_status w r) = EXIT_FAILURE then int n else 0) s' \<and>
     pipes_made s' = pipes_made s \<and> forks_made s' = forks_made s + 1 \<and>
     spawns (trace s') = spawns (trace s) @ [Forked_stage n] \<and>
     waits (trace s') = waits (trace s) @ [(fork_result w (forks_made s), r)] \<and>
     r = awaited w (pending s) (fork_result w (forks_made s)) (stage_args c)"
proof -
  from c obtain args where a: "tokenize MAX_ARGS c '' '' = Some args" "args \<noteq> []"
    by (rule has_argsE)
  then have sa: "stage_args c = args"
    by (simp add: stage_args_def)
  have "\<exists>r s'. fork_exec_wait w args n n False s =
       Returns (if WEXITSTATUS (returned_status w r) = EXIT_FAILURE then - 1 else 0) s' \<and>
     pipes_made s' = pipes_made s \<and> forks_made s' = forks_made s + 1 \<and>
     spawns (trace s') = spawns (trace s) @ [Forked_stage n] \<and>
     waits (trace s') = waits (trace s) @ [(fork_result w (forks_made s), r)] \<and>
     r = awaited w (pending s) (fork_result w (forks_made s)) args"
    using inv fork by (intro fork_last) auto
  then obtain r s' where
    f: "fork_exec_wait w args n n False s =
       Returns (if WEXITSTATUS (returned_status w r) = EXIT_FAILURE then - 1 else 0) s'"
    and o: "pipes_made s' = pipes_made s" "forks_made s' = forks_made s + 1"
     "spawns (trace s') = spawns (trace s) @ [Forked_stage n]"
     "waits (trace s') = waits (trace s) @ [(fork_result w (forks_made s), r)]"
     "r = awaited w (pending s) (fork_result w (forks_made s)) (stage_args c)"
    unfolding sa by blast
  from n a have e: "exec_cmd w args (i + 1) n s = fork_exec_wait w args n n False s"
    by (simp add: exec_cmd_piping)
  show ?thesis
  proof (cases "WEXITSTATUS (returned_status w r) = EXIT_FAILURE")
    case True
    with a e f n have "exec_stages w [c] i n s =
       Returns (int n) (emit (Stderr (Command_failed args)) s')"
      by (auto simp: exec_stages.simps)
    with True o show ?thesis by (intro exI [of _ r]) simp
  next
    case False
    with a e f n have "exec_stages w [c] i n s = Returns 0 s'"
      by (simp add: exec_stages.simps)
    with False o show ?thesis by (intro exI [of _ r]) simp
  qed
qed

lemma stages_prefix:
  assumes "1 \<le> i" "i + length pre < n" "\<forall>c\<in>set pre. has_args c"
    and "static_pipe_fds s = Some fds" "length fds = n - 1" "static_n s = i - 1"
    and "\<forall>j<length pre. 0 < fork_result w (forks_made s + j)"
  shows "\<exists>s'. exec_stages w (pre @ rest) i n s = exec_stages w rest (i + length pre) n s' \<and>
     static_pipe_fds s' = Some fds \<and> static_n s' = i + length pre - 1 \<and>
     pipes_made s' = pipes_made s \<and> forks_made s' = forks_made s + length pre \<and>
     spawns (trace s') = spawns (trace s) @ map Forked_stage [i + 1..<i + length pre + 1] \<and>
     waits (trace s') = waits (trace s) \<and> pending s' = pending s"
  using assms
proof (induction pre arbitrary: i s)
  case Nil
  then show ?case by (intro exI [of _ s]) simp
next
  case (Cons c pre)
  from Cons.prems have c: "has_args c" and i: "1 \<le> i" "i + 1 < n" by simp_all
  from Cons.prems have "0 < fork_result w (forks_made s + 0)" by blast
  then have fork: "0 < fork_result w (forks_made s)" by simp
  from stage_middle [OF i c Cons.prems(4,5,6) fork, of "pre @ rest"] obtain s1 where
    step: "exec_stages w (c # pre @ rest) i n s = exec_stages w (pre @ rest) (i + 1) n s1"
    and o: "static_pipe_fds s1 = Some fds" "static_n s1 = i"
     "pipes_made s1 = pipes_made s" "forks_made s1 = forks_made s + 1"
     "spawns (trace s1) = spawns (trace s) @ [Forked_stage (i + 1)]"
     "waits (trace s1) = waits (trace s)" "pending s1 = pending s"
    by blast
  have forks: "\<forall>j<length pre. 0 < fork_result w (forks_made s1 + j)"
  proof (intro allI impI)
    fix j assume "j < length pre"
    then have "Suc j < length (c # pre)" by simp
    with Cons.prems(7) have "0 < fork_result w (forks_made s + Suc j)" by blast
    then show "0 < fork_result w (forks_made s1 + j)" by (simp add: o)
  qed
  have "\<exists>s'. exec_stages w (pre @ rest) (i + 1) n s1 =
       exec_stages w rest (i + 1 + length pre) n s' \<and>
     static_pipe_fds s' = Some fds \<and> static_n s' = i + 1 + length pre - 1 \<and>
     pipes_made s' = pipes_made s1 \<and> forks_made s' = forks_made s1 + length pre \<and>
     spawns (trace s') = spawns (trace s1) @ map Forked_stage [i + 1 + 1..<i + 1 + length pre + 1] \<and>
     waits (trace s') = waits (trace s1) \<and> pending s' = pending s1"
    using Cons.prems o forks by (intro Cons.IH) auto
  then obtain s' where
    "exec_stages w (pre @ rest) (i + 1) n s1 = exec_stages w rest (i + 1 + length pre) n s'"
    "static_pipe_fds s' = Some fds" "static_n s' = i + 1 + length pre - 1"
    "pipes_made s' = pipes_made s1" "forks_made s' = forks_made s1 + length pre"
    "spawns (trace s') = spawns (trace s1) @ map Forked_stage [i + 1 + 1..<i + 1 + length pre + 1]"
    "waits (trace s') = waits (trace s1)" "pending s' = pending s1"
    by blast
  moreover have "[i + 1..<i + length (c # pre) + 1] = (i + 1) # [i + 1 + 1..<i + 1 + length pre + 1]"
    by (subst upt_rec) simp
  ultimately show ?case
    using step o by (intro exI [of _ s']) simp
qed

lemma exec_cmdline_stages:
  "tokenize MAX_CMDS line ''|'' = Some cmds \<Longrightarrow>
   exec_cmdline w line s = exec_stages w cmds 0 (length cmds) s"
  by (simp add: exec_cmdline.simps)

lemma stage_empty:
  "tokenize MAX_ARGS c '' '' = Some [] \<Longrightarrow>
   exec_stages w (c # cs) i n s = Returns (int (i + 1)) (emit (Stderr Empty_command) s)"
  by (simp add: exec_stages.simps)

lemma stages_piped:
  assumes n: "2 \<le> length cmds" and args: "\<forall>c\<in>set cmds. has_args c"
    and pipes: "\<forall>j<length cmds - 1. pipe_result w (pipes_made s + j) \<noteq> None"
    and forks: "\<forall>j<length cmds. 0 < fork_result w (forks_made s + j)"
  shows "\<exists>r s'. exec_stages w cmds 0 (length cmds) s =
       Returns (if WEXITSTATUS (returned_status w r) = EXIT_FAILURE
                then int (length cmds) else 0) s' \<and>
     spawns (trace s') = spawns (trace s) @ replicate (length cmds - 1) Pipe_created
        @ map Forked_stage [1..<length cmds + 1] \<and>
     waits (trace s') = waits (trace s) @ [(fork_result w (forks_made s + (length cmds - 1)), r)] \<and>
     r = awaited w (pending s) (fork_result w (forks_made s + (length cmds - 1)))
           (stage_args (last cmds))"
proof -
  define n where "n = length cmds"
  from n obtain c cs where cmds: "cmds = c # cs" and cs: "cs \<noteq> []"
    by (cases cmds) (auto simp: Suc_le_eq)
  define pre where "pre = butlast cs"
  define l where "l = last cs"
  from cs have split: "cs = pre @ [l]" by (simp add: pre_def l_def)
  have len: "n = length pre + 2" by (simp add: n_def cmds split)
  from args have c: "has_args c" and pre: "\<forall>c\<in>set pre. has_args c" and l: "has_args l"
    by (simp_all add: cmds split)
  from forks have f0: "0 < fork_result w (forks_made s)"
    using n by (auto simp: n_def dest: spec [of _ 0])
  have n2: "2 \<le> n" using n by (simp add: n_def)
  from pipes have pipes': "\<forall>j<n - 1. pipe_result w (pipes_made s + j) \<noteq> None"
    by (simp add: n_def)
  from stage_first [OF n2 c pipes' f0, of cs] obtain fds s1 where
    e1: "exec_stages w (c # cs) 0 n s = exec_stages w cs 1 n s1"
    and o1: "static_pipe_fds s1 = Some fds" "length fds = n - 1" "static_n s1 = 0"
     "pipes_made s1 = pipes_made s + (n - 1)" "forks_made s1 = forks_made s + 1"
     "spawns (trace s1) = spawns (trace s) @ replicate (n - 1) Pipe_created @ [Forked_stage 1]"
     "waits (trace s1) = waits (trace s)" "pending s1 = pending s"
    by blast
  have f1: "\<forall>j<length pre. 0 < fork_result w (forks_made s1 + j)"
  proof (intro allI impI)
    fix j assume "j < length pre"
    then have "Suc j < length cmds" by (simp add: cmds split)
    with forks have "0 < fork_result w (forks_made s + Suc j)" by blast
    then show "0 < fork_result w (forks_made s1 + j)" by (simp add: o1)
  qed
  have "\<exists>s'. exec_stages w (pre @ [l]) 1 n s1 = exec_stages w [l] (1 + length pre) n s' \<and>
     static_pipe_fds s' = Some fds \<and> static_n s' = 1 + length pre - 1 \<and>
     pipes_made s' = pipes_made s1 \<and> forks_made s' = forks_made s1 + length pre \<and>
     spawns (trace s') = spawns (trace s1) @ map Forked_stage [1 + 1..<1 + length pre + 1] \<and>
     waits (trace s') = waits (trace s1) \<and> pending s' = pending s1"
    using pre o1 f1 len by (intro stages_prefix) auto
  then obtain s2 where
    e2: "exec_stages w (pre @ [l]) 1 n s1 = exec_stages w [l] (1 + length pre) n s2"
    and o2': "static_pipe_fds s2 = Some fds" "static_n s2 = 1 + length pre - 1"
     "pipes_made s2 = pipes_made s1" "forks_made s2 = forks_made s1 + length pre"
     "spawns (trace s2) = spawns (trace s1) @ map Forked_stage [1 + 1..<1 + length pre + 1]"
     "waits (trace s2) = waits (trace s1)" "pending s2 = pending s1"
    by blast
  have o2: "static_pipe_fds s2 = Some fds" "static_n s2 = length pre"
     "pipes_made s2 = pipes_made s1" "forks_made s2 = forks_made s1 + length pre"
     "spawns (trace s2) = spawns (trace s1) @ map Forked_stage [2..<length pre + 2]"
     "waits (trace s2) = waits (trace s1)" "pending s2 = pending s1"
    using o2' by (simp_all del: upt_Suc add: numeral_2_eq_2)
  have f2: "0 < fork_result w (forks_made s2)"
  proof -
    have "length pre + 1 < length cmds" by (simp add: cmds split)
    with forks have "0 < fork_result w (forks_made s + (length pre + 1))" by blast
    then show ?thesis by (simp add: o2 o1)
  qed
  have "\<exists>r s'. exec_stages w [l] (1 + length pre) n s2 =
       Returns (if WEXITSTATUS (returned_status w r) = EXIT_FAILURE then int n else 0) s' \<and>
     pipes_made s' = pipes_made s2 \<and> forks_made s' = forks_made s2 + 1 \<and>
     spawns (trace s') = spawns (trace s2) @ [Forked_stage n] \<and>
     waits (trace s') = waits (trace s2) @ [(fork_result w (forks_made s2), r)] \<and>
     r = awaited w (pending s2) (fork_result w (forks_made s2)) (stage_args l)"
    using l o2 o1 f2 len by (intro stage_last) auto
  then obtain r s3 where
    e3: "exec_stages w [l] (1 + length pre) n s2 =
       Returns (if WEXITSTATUS (returned_status w r) = EXIT_FAILURE then int n else 0) s3"
    and o3: "spawns (trace s3) = spawns (trace s2) @ [Forked_stage n]"
     "waits (trace s3) = waits (trace s2) @ [(fork_result w (forks_made s2), r)]"
    and r: "r = awaited w (pending s2) (fork_result w (forks_made s2)) (stage_args l)"
    by blast
  have "[1..<n + 1] = 1 # [2..<n + 1]"
    using n2 by (subst upt_rec) (simp del: upt_Suc add: numeral_2_eq_2)
  moreover have "[2..<n + 1] = [2..<length pre + 2] @ [n]"
    by (simp add: len)
  ultimately have upt: "[1..<n + 1] = 1 # [2..<length pre + 2] @ [n]"
    by simp
  have pid: "forks_made s2 = forks_made s + (n - 1)"
    by (simp add: o2 o1 len)
  have "exec_stages w cmds 0 n s = exec_stages w cs 1 n s1"
    by (simp only: cmds e1)
  also have "\<dots> = exec_stages w [l] (1 + length pre) n s2"
    by (simp only: split e2)
  finally have "exec_stages w cmds 0 n s =
       Returns (if WEXITSTATUS (returned_status w r) = EXIT_FAILURE then int n else 0) s3"
    by (simp only: e3)
  moreover have "spawns (trace s3) = spawns (trace s) @ replicate (n - 1) Pipe_created
        @ map Forked_stage [1..<n + 1]"
    unfolding upt by (simp add: o3 o2 o1 del: upt_Suc)
  moreover have "waits (trace s3) = waits (trace s) @ [(fork_result w (forks_made s + (n - 1)), r)]"
    unfolding pid [symmetric] by (simp add: o3 o2 o1)
  moreover have "r = awaited w (pending s) (fork_result w (forks_made s + (n - 1)))
           (stage_args (last cmds))"
    unfolding pid [symmetric] using r by (simp add: o2 o1 cmds split)
  ultimately show ?thesis
    unfolding n_def by blast
qed

lemma fork_background:
  assumes "0 < fork_result w (forks_made s)"
  shows "fork_exec_wait w a cmd (Suc 0) True s =
     Returns 0
       (emit (Stdout (Spawned_in_background (fork_result w (forks_made s))))
          (emit (Fork (fork_result w (forks_made s)) cmd
                   (child_code w a cmd (Suc 0) True [] (static_n s)))
             (s\<lparr>forks_made := Suc (forks_made s),
                forked := (fork_result w (forks_made s), a) # forked s\<rparr>)))"
proof -
  have "fork_exec_wait w a cmd (Suc 0) True s =
     parent_wait w (fork_result w (forks_made s)) cmd (Suc 0) True []
       (emit (Fork (fork_result w (forks_made s)) cmd
                (child_code w a cmd (Suc 0) True [] (static_n s)))
          (s\<lparr>forks_made := Suc (forks_made s),
             forked := (fork_result w (forks_made s), a) # forked s\<rparr>))"
    using assms by (intro fork_exec_wait_parent) auto
  then show ?thesis
    by (simp add: parent_wait_def)
qed

lemma exec_cmd_external:
  assumes "args \<noteq> []" "hd args \<notin> set builtin_names"
  shows "exec_cmd w args cmd (Suc 0) s =
     (if last args = ''&''
      then (if 2 \<le> length args then fork_exec_wait w (butlast args) cmd (Suc 0) True s
            else Returns (- 1) s)
      else fork_exec_wait w args cmd (Suc 0) False s)"
  using assms by (simp add: exec_cmd.simps builtin_names_def)

lemma marker_not_alone:
  "args \<noteq> [] \<Longrightarrow> args \<noteq> [''&''] \<Longrightarrow> last args = ''&'' \<Longrightarrow> 2 \<le> length args"
  by (cases args) (auto split: if_splits simp: Suc_le_eq)

lemma stage_single:
  assumes c: "external_command c" and fork: "0 < fork_result w (forks_made s)"
  shows "\<exists>v s'. exec_stages w [c] 0 1 s = Returns v s' \<and>
     spawns (trace s') = spawns (trace s) @ [Forked_stage 1]"
proof -
  from c obtain args where a: "tokenize MAX_ARGS c '' '' = Some args" "args \<noteq> []"
    "hd args \<notin> set builtin_names" "args \<noteq> [''&'']"
    by (auto simp: external_command_def split: option.splits)
  have "\<exists>v s'. exec_cmd w args 1 1 s = Returns v s' \<and>
     spawns (trace s') = spawns (trace s) @ [Forked_stage 1]"
  proof (cases "last args = ''&''")
    case True
    with a have "2 \<le> length args" by (intro marker_not_alone)
    with True a have "exec_cmd w args 1 1 s = fork_exec_wait w (butlast args) 1 1 True s"
      by (simp add: exec_cmd_external)
    then show ?thesis
      by (simp add: fork_background [OF fork])
  next
    case False
    with a have e: "exec_cmd w args 1 1 s = fork_exec_wait w args 1 1 False s"
      by (simp add: exec_cmd_external)
    have "\<exists>r s'. fork_exec_wait w args 1 1 False s =
       Returns (if WEXITSTATUS (returned_status w r) = EXIT_FAILURE then - 1 else 0) s' \<and>
     pipes_made s' = pipes_made s \<and> forks_made s' = forks_made s + 1 \<and>
     spawns (trace s') = spawns (trace s) @ [Forked_stage 1] \<and>
     waits (trace s') = waits (trace s) @ [(fork_result w (forks_made s), r)] \<and>
     r = awaited w (pending s) (fork_result w (forks_made s)) args"
      using fork by (intro fork_last) auto
    with e show ?thesis by auto
  qed
  then obtain v s' where e: "exec_cmd w args 1 1 s = Returns v s'"
    and o: "spawns (trace s') = spawns (trace s) @ [Forked_stage 1]"
    by blast
  show ?thesis
  proof (cases "v = - 1")
    case True
    with a e have "exec_stages w [c] 0 1 s = Returns 1 (emit (Stderr (Command_failed args)) s')"
      by (simp add: exec_stages.simps)
    with o show ?thesis by simp
  next
    case False
    with a e have "exec_stages w [c] 0 1 s = Returns 0 s'"
      by (simp add: exec_stages.simps)
    with o show ?thesis by simp
  qed
qed

lemma stages_until_empty:
  assumes i: "i < length cmds" and empty: "tokenize MAX_ARGS (cmds ! i) '' '' = Some []"
    and args: "\<forall>j<i. has_args (cmds ! j)"
    and pipes: "i = 0 \<or> (\<forall>j<length cmds - 1. pipe_result w (pipes_made s + j) \<noteq> None)"
    and forks: "\<forall>j<i. 0 < fork_result w (forks_made s + j)"
  shows "\<exists>s'. exec_stages w cmds 0 (length cmds) s = Returns (int (i + 1)) s' \<and>
     last (trace s') = Stderr Empty_command \<and>
     spawns (trace s') = spawns (trace s) @
       (if i = 0 then [] else replicate (length cmds - 1) Pipe_created @ map Forked_stage [1..<i + 1]) \<and>
     waits (trace s') = waits (trace s)"
proof (cases i)
  case 0
  with i obtain c cs where "cmds = c # cs" by (cases cmds) auto
  with 0 empty show ?thesis
    by (simp add: stage_empty)
next
  case (Suc k)
  define n where "n = length cmds"
  define pre where "pre = take k (tl cmds)"
  define e where "e = cmds ! i"
  define post where "post = drop (Suc i) cmds"
  from i Suc have cmds: "cmds = hd cmds # pre @ e # post"
    unfolding pre_def e_def post_def
    by (cases cmds) (simp_all add: id_take_nth_drop [symmetric])
  have lpre: "length pre = k" using i Suc by (simp add: pre_def)
  have n2: "2 \<le> n" using i Suc by (simp add: n_def)
  have c: "has_args (hd cmds)"
    using args Suc i by (cases cmds) (auto dest: spec [of _ 0])
  have pre: "\<forall>c\<in>set pre. has_args c"
  proof
    fix c assume "c \<in> set pre"
    then obtain j where j: "j < k" "c = pre ! j"
      by (auto simp: in_set_conv_nth lpre)
    then have "c = cmds ! Suc j"
      using i Suc by (cases cmds) (simp_all add: pre_def)
    moreover from j Suc have "Suc j < i" by simp
    ultimately show "has_args c" using args by simp
  qed
  from pipes Suc have pipes': "\<forall>j<n - 1. pipe_result w (pipes_made s + j) \<noteq> None"
    by (simp add: n_def)
  from forks Suc have f0: "0 < fork_result w (forks_made s)"
    by (auto dest: spec [of _ 0])
  from stage_first [OF n2 c pipes' f0, of "pre @ e # post"] obtain fds s1 where
    e1: "exec_stages w (hd cmds # pre @ e # post) 0 n s = exec_stages w (pre @ e # post) 1 n s1"
    and o1: "static_pipe_fds s1 = Some fds" "length fds = n - 1" "static_n s1 = 0"
     "pipes_made s1 = pipes_made s + (n - 1)" "forks_made s1 = forks_made s + 1"
     "spawns (trace s1) = spawns (trace s) @ replicate (n - 1) Pipe_created @ [Forked_stage 1]"
     "waits (trace s1) = waits (trace s)"
    by blast
  have f1: "\<forall>j<length pre. 0 < fork_result w (forks_made s1 + j)"
  proof (intro allI impI)
    fix j assume "j < length pre"
    then have "Suc j < i" by (simp add: lpre Suc)
    with forks have "0 < fork_result w (forks_made s + Suc j)" by blast
    then show "0 < fork_result w (forks_made s1 + j)" by (simp add: o1)
  qed
  have "1 + length pre < n" using i Suc by (simp add: lpre n_def)
  then have "\<exists>s'. exec_stages w (pre @ e # post) 1 n s1 =
       exec_stages w (e # post) (1 + length pre) n s' \<and>
     static_pipe_fds s' = Some fds \<and> static_n s' = 1 + length pre - 1 \<and>
     pipes_made s' = pipes_made s1 \<and> forks_made s' = forks_made s1 + length pre \<and>
     spawns (trace s') = spawns (trace s1) @ map Forked_stage [1 + 1..<1 + length pre + 1] \<and>
     waits (trace s') = waits (trace s1) \<and> pending s' = pending s1"
    using pre o1 f1 by (intro stages_prefix) auto
  then obtain s2 where
    e2: "exec_stages w (pre @ e # post) 1 n s1 = exec_stages w (e # post) (1 + length pre) n s2"
    and o2: "spawns (trace s2) = spawns (trace s1) @ map Forked_stage [1 + 1..<1 + length pre + 1]"
     "waits (trace s2) = waits (trace s1)"
    by blast
  have e3: "exec_stages w (e # post) (1 + length pre) n s2 =
     Returns (int (1 + length pre + 1)) (emit (Stderr Empty_command) s2)"
    using empty by (intro stage_empty) (simp add: e_def)
  have "exec_stages w cmds 0 n s = exec_stages w (hd cmds # pre @ e # post) 0 n s"
    using cmds by simp
  also have "\<dots> = exec_stages w (e # post) (1 + length pre) n s2"
    by (simp only: e1 e2)
  also have "\<dots> = Returns (int (1 + length pre + 1)) (emit (Stderr Empty_command) s2)"
    by (rule e3)
  finally have r: "exec_stages w cmds 0 n s =
     Returns (int (i + 1)) (emit (Stderr Empty_command) s2)"
    by (simp add: lpre Suc)
  have "[1..<i + 1] = 1 # [1 + 1..<1 + length pre + 1]"
    by (subst upt_rec) (simp add: lpre Suc del: upt_Suc)
  then have "spawns (trace (emit (Stderr Empty_command) s2)) =
     spawns (trace s) @ replicate (n - 1) Pipe_created @ map Forked_stage [1..<i + 1]"
    by (simp add: o2 o1 del: upt_Suc)
  moreover have "waits (trace (emit (Stderr Empty_command) s2)) = waits (trace s)"
    by (simp add: o2 o1)
  ultimately show ?thesis
    using r Suc by (simp add: n_def)
qed

section \<open>Whole pipelines\<close>

text \<open>
  Claim C1, as amended. Take a foreground pipeline of two or more stages that all have
  arguments, let no \<^verbatim>\<open>pipe\<close> or \<^verbatim>\<open>fork\<close> call fail, and let the synchronous wait on the
  last stage collect that child, with the status \<open>status\<close>. Then \<^verbatim>\<open>exec_cmdline\<close> waits
  for this one child only, and it reports the pipeline as failed, returning the number
  of the last stage, exactly when the exit status of the last stage is \<^verbatim>\<open>EXIT_FAILURE\<close>;
  otherwise it returns 0. The theorem holds in every world, so what happens to the
  earlier stages, a failed \<^verbatim>\<open>execvp\<close> included, changes nothing.
\<close>

theorem pipeline_fails_iff_last_stage_status:
  assumes "tokenize MAX_CMDS line ''|'' = Some cmds" and "2 \<le> length cmds"
    and "\<forall>c\<in>set cmds. has_args c"
    and "\<forall>j<length cmds - 1. pipe_result w (pipes_made s + j) \<noteq> None"
    and "\<forall>j<length cmds. 0 < fork_result w (forks_made s + j)"
    and "awaited w (pending s) (fork_result w (forks_made s + (length cmds - 1)))
           (stage_args (last cmds)) = Some status"
  shows "\<exists>s'. exec_cmdline w line s =
       Returns (if WEXITSTATUS status = EXIT_FAILURE then int (length cmds) else 0) s' \<and>
     waits (trace s') =
       waits (trace s) @ [(fork_result w (forks_made s + (length cmds - 1)), Some status)]"
proof -
  from stages_piped [OF assms(2-5)] obtain r s' where
    run: "exec_stages w cmds 0 (length cmds) s =
       Returns (if WEXITSTATUS (returned_status w r) = EXIT_FAILURE
                then int (length cmds) else 0) s'"
    and wt: "waits (trace s') =
       waits (trace s) @ [(fork_result w (forks_made s + (length cmds - 1)), r)]"
    and r: "r = awaited w (pending s) (fork_result w (forks_made s + (length cmds - 1)))
           (stage_args (last cmds))"
    by blast
  from r assms(6) have r': "r = Some status"
    by simp
  have "returned_status w (Some status) = status"
    by (simp add: returned_status_def)
  with run wt show ?thesis
    unfolding r' exec_cmdline_stages [OF assms(1)] by (intro exI [of _ s']) simp
qed

text \<open>
  In \<^verbatim>\<open>nosuch | sort | wc\<close> the first program cannot be loaded and the last one exits
  with status 0: the pipeline is not reported as failed. In \<^verbatim>\<open>ls | nosuch\<close> the last
  program cannot be loaded: its child exits with \<^verbatim>\<open>EXIT_FAILURE\<close> and stage 2 is reported.
\<close>

theorem pipeline_fails_iff_last_stage_status_witness:
  "tokenize MAX_CMDS ''nosuch | sort | wc'' ''|'' = Some [''nosuch '', '' sort '', '' wc''] \<and>
   list_all has_args [''nosuch '', '' sort '', '' wc''] \<and>
   \<not> execvp_ok example_world [''nosuch''] \<and>
   awaited example_world (pending initial_os) 103 (stage_args '' wc'') = Some 0 \<and>
   (\<exists>s'. exec_cmdline example_world ''nosuch | sort | wc'' initial_os = Returns 0 s' \<and>
     waits (trace s') = [(103, Some 0)]) \<and>
   tokenize MAX_CMDS ''ls | nosuch'' ''|'' = Some [''ls '', '' nosuch''] \<and>
   awaited example_world (pending initial_os) 102 (stage_args '' nosuch'') = Some 256 \<and>
   WEXITSTATUS 256 = EXIT_FAILURE \<and>
   (\<exists>s'. exec_cmdline example_world ''ls | nosuch'' initial_os = Returns 2 s' \<and>
     waits (trace s') = [(102, Some 256)])"
proof -
  have a: "tokenize MAX_CMDS ''nosuch | sort | wc'' ''|'' = Some [''nosuch '', '' sort '', '' wc'']"
    by (simp add: tokenize_def MAX_CMDS_def)
  have b: "\<forall>c\<in>set [''nosuch '', '' sort '', '' wc'']. has_args c"
    by (simp add: has_args_def tokenize_def MAX_ARGS_def)
  have p: "\<forall>j<length [''nosuch '', '' sort '', '' wc''] - 1.
      pipe_result example_world (pipes_made initial_os + j) \<noteq> None"
    by (simp add: example_world_def)
  have f: "\<forall>j<length [''nosuch '', '' sort '', '' wc''].
      0 < fork_result example_world (forks_made initial_os + j)"
    by (simp add: example_world_def)
  have pid: "fork_result example_world
      (forks_made initial_os + (length [''nosuch '', '' sort '', '' wc''] - 1)) = 103"
    by (simp add: example_world_def initial_os_def)
  have tr: "waits (trace initial_os) = []"
    by (simp add: initial_os_def)
  have st: "awaited example_world (pending initial_os) 103 (stage_args '' wc'') = Some 0"
    by code_simp
  have ok: "WEXITSTATUS 0 \<noteq> EXIT_FAILURE"
    by (simp add: WEXITSTATUS_def EXIT_FAILURE_def)
  have 1: "\<exists>s'. exec_cmdline example_world ''nosuch | sort | wc'' initial_os = Returns 0 s' \<and>
     waits (trace s') = [(103, Some 0)]"
    using pipeline_fails_iff_last_stage_status [OF a _ b p f, of 0] st ok
    unfolding pid tr by simp
  have a2: "tokenize MAX_CMDS ''ls | nosuch'' ''|'' = Some [''ls '', '' nosuch'']"
    by (simp add: tokenize_def MAX_CMDS_def)
  have b2: "\<forall>c\<in>set [''ls '', '' nosuch'']. has_args c"
    by (simp add: has_args_def tokenize_def MAX_ARGS_def)
  have p2: "\<forall>j<length [''ls '', '' nosuch''] - 1.
      pipe_result example_world (pipes_made initial_os + j) \<noteq> None"
    by (simp add: example_world_def)
  have f2: "\<forall>j<length [''ls '', '' nosuch''].
      0 < fork_result example_world (forks_made initial_os + j)"
    by (simp add: example_world_def)
  have pid2: "fork_result example_world
      (forks_made initial_os + (length [''ls '', '' nosuch''] - 1)) = 102"
    by (simp add: example_world_def initial_os_def)
  have st2: "awaited example_world (pending initial_os) 102 (stage_args '' nosuch'') = Some 256"
    by code_simp
  have ko: "WEXITSTATUS 256 = EXIT_FAILURE"
    by (simp add: WEXITSTATUS_def EXIT_FAILURE_def)
  have 2: "\<exists>s'. exec_cmdline example_world ''ls | nosuch'' initial_os = Returns 2 s' \<and>
     waits (trace s') = [(102, Some 256)]"
    using pipeline_fails_iff_last_stage_status [OF a2 _ b2 p2 f2, of 256] st2 ko
    unfolding pid2 tr by simp
  have "\<not> execvp_ok example_world [''nosuch'']"
    by (simp add: example_world_def)
  with a b st 1 a2 st2 ko 2 show ?thesis
    by (simp add: list_all_iff)
qed

text \<open>
  Claim C1 as stated, for every multi-stage pipeline, fails where a stage is empty:
  \<^verbatim>\<open>ls | | wc\<close> is reported as failed, at stage 2, although no child was waited for and
  the last stage was never forked.
\<close>

theorem empty_stage_breaks_the_iff:
  "tokenize MAX_CMDS ''ls | | wc'' ''|'' = Some [''ls '', '' '', '' wc''] \<and>
   result_of (exec_cmdline example_world ''ls | | wc'' initial_os) = Some 2 \<and>
   waits (trace_of (exec_cmdline example_world ''ls | | wc'' initial_os)) = [] \<and>
   spawns (trace_of (exec_cmdline example_world ''ls | | wc'' initial_os)) =
     [Pipe_created, Pipe_created, Forked_stage 1]"
  by code_simp

text \<open>
  Claim C2, as amended. Take a pipeline of \<open>N\<close> stages, \<open>N\<close> from 1 to 63, that all have
  arguments, where a single stage is neither a built-in command nor the background
  marker alone, and let no \<^verbatim>\<open>pipe\<close> or \<^verbatim>\<open>fork\<close> call fail. Then \<^verbatim>\<open>exec_cmdline\<close> creates
  exactly \<open>N - 1\<close> pipes, all of them before the first \<^verbatim>\<open>fork\<close>, and then forks exactly
  \<open>N\<close> children, for the stages 1 to \<open>N\<close> in this order.
\<close>

theorem pipeline_pipes_then_forks:
  assumes "tokenize MAX_CMDS line ''|'' = Some cmds" and "cmds \<noteq> []"
    and "\<forall>c\<in>set cmds. has_args c"
    and "length cmds = 1 \<longrightarrow> external_command (hd cmds)"
    and "\<forall>j<length cmds - 1. pipe_result w (pipes_made s + j) \<noteq> None"
    and "\<forall>j<length cmds. 0 < fork_result w (forks_made s + j)"
  shows "1 \<le> length cmds \<and> length cmds \<le> 63 \<and>
     (\<exists>v s'. exec_cmdline w line s = Returns v s' \<and>
        spawns (trace s') = spawns (trace s) @ replicate (length cmds - 1) Pipe_created
          @ map Forked_stage [1..<length cmds + 1])"
proof -
  from assms(1) have le: "length cmds \<le> 63"
    by (auto simp: tokenize_def MAX_CMDS_def Let_def split: if_splits)
  from assms(2) have ge: "1 \<le> length cmds"
    by (cases cmds) auto
  have "\<exists>v s'. exec_stages w cmds 0 (length cmds) s = Returns v s' \<and>
        spawns (trace s') = spawns (trace s) @ replicate (length cmds - 1) Pipe_created
          @ map Forked_stage [1..<length cmds + 1]"
  proof (cases "length cmds = 1")
    case True
    then obtain c where c: "cmds = [c]"
      by (cases cmds) auto
    with assms(4) have "external_command c" by simp
    moreover from assms(6) c have "0 < fork_result w (forks_made s)" by simp
    ultimately have "\<exists>v s'. exec_stages w [c] 0 1 s = Returns v s' \<and>
       spawns (trace s') = spawns (trace s) @ [Forked_stage 1]"
      by (rule stage_single)
    with c show ?thesis by simp
  next
    case False
    with ge have "2 \<le> length cmds" by simp
    from stages_piped [OF this assms(3,5,6)] show ?thesis by blast
  qed
  with le ge show ?thesis
    unfolding exec_cmdline_stages [OF assms(1)] by blast
qed

text \<open>
  Claim C2 as stated, for every pipeline of 1 to 63 stages, fails on a built-in
  command: the line \<^verbatim>\<open>cd\<close> is a pipeline of one stage and no child is forked for it.
\<close>

theorem builtin_line_forks_nothing:
  "tokenize MAX_CMDS ''cd'' ''|'' = Some [''cd''] \<and>
   result_of (exec_cmdline example_world ''cd'' initial_os) = Some 0 \<and>
   spawns (trace_of (exec_cmdline example_world ''cd'' initial_os)) = [] \<and>
   replicate (1 - 1) Pipe_created @ map Forked_stage [1..<1 + 1] = [Forked_stage 1]"
  by code_simp

text \<open>
  Claim C3, as amended. If stage \<open>i\<close> (counted from 1) is the first stage of the
  pipeline that has no arguments, and no \<^verbatim>\<open>pipe\<close> or \<^verbatim>\<open>fork\<close> call fails before it is
  reached, then \<^verbatim>\<open>exec_cmdline\<close> prints "Empty command" last and returns \<open>i\<close>, and the only
  children forked are those of the stages 1 to \<open>i - 1\<close>: none for stage \<open>i\<close> or a later
  one.
\<close>

theorem empty_stage_reported:
  assumes "tokenize MAX_CMDS line ''|'' = Some cmds"
    and "1 \<le> i" and "i \<le> length cmds"
    and "tokenize MAX_ARGS (cmds ! (i - 1)) '' '' = Some []"
    and "\<forall>j<i - 1. has_args (cmds ! j)"
    and "i = 1 \<or> (\<forall>j<length cmds - 1. pipe_result w (pipes_made s + j) \<noteq> None)"
    and "\<forall>j<i - 1. 0 < fork_result w (forks_made s + j)"
  shows "\<exists>s'. exec_cmdline w line s = Returns (int i) s' \<and>
     last (trace s') = Stderr Empty_command \<and>
     spawns (trace s') = spawns (trace s) @
       (if i = 1 then []
        else replicate (length cmds - 1) Pipe_created @ map Forked_stage [1..<i])"
proof -
  define k where "k = i - 1"
  from assms(2) have i: "i = k + 1" by (simp add: k_def)
  have "\<exists>s'. exec_stages w cmds 0 (length cmds) s = Returns (int (k + 1)) s' \<and>
     last (trace s') = Stderr Empty_command \<and>
     spawns (trace s') = spawns (trace s) @
       (if k = 0 then [] else replicate (length cmds - 1) Pipe_created @ map Forked_stage [1..<k + 1]) \<and>
     waits (trace s') = waits (trace s)"
    using assms(3-7) unfolding i by (intro stages_until_empty) auto
  then show ?thesis
    unfolding i by (simp only: exec_cmdline_stages [OF assms(1)]) auto
qed

text \<open>
  Claim C3 as stated, for any empty stage, fails on the second of two empty stages:
  in the line \<^verbatim>\<open> | \<close> stage 2 has no arguments, and \<^verbatim>\<open>exec_cmdline\<close> returns 1, not 2.
\<close>

theorem second_empty_stage_not_reported:
  "tokenize MAX_CMDS '' | '' ''|'' = Some ['' '', '' ''] \<and>
   tokenize MAX_ARGS (['' '', '' ''] ! (2 - 1)) '' '' = Some [] \<and>
   result_of (exec_cmdline example_world '' | '' initial_os) = Some 1"
  by code_simp


text \<open>
  Four stages: three pipes, then four children in stage order. One stage: one child.
\<close>

theorem pipeline_pipes_then_forks_witness:
  "tokenize MAX_CMDS ''ls -l | grep x | sort | wc'' ''|'' =
     Some [''ls -l '', '' grep x '', '' sort '', '' wc''] \<and>
   list_all has_args [''ls -l '', '' grep x '', '' sort '', '' wc''] \<and>
   (\<exists>v s'. exec_cmdline example_world ''ls -l | grep x | sort | wc'' initial_os = Returns v s' \<and>
      spawns (trace s') =
        [Pipe_created, Pipe_created, Pipe_created,
         Forked_stage 1, Forked_stage 2, Forked_stage 3, Forked_stage 4]) \<and>
   spawns (trace_of (exec_cmdline example_world ''ls -l | grep x | sort | wc'' initial_os)) =
     [Pipe_created, Pipe_created, Pipe_created,
      Forked_stage 1, Forked_stage 2, Forked_stage 3, Forked_stage 4] \<and>
   external_command ''ls'' \<and>
   spawns (trace_of (exec_cmdline example_world ''ls'' initial_os)) = [Forked_stage 1]"
proof -
  have a: "tokenize MAX_CMDS ''ls -l | grep x | sort | wc'' ''|'' =
     Some [''ls -l '', '' grep x '', '' sort '', '' wc'']"
    by (simp add: tokenize_def MAX_CMDS_def)
  have b: "\<forall>c\<in>set [''ls -l '', '' grep x '', '' sort '', '' wc'']. has_args c"
    by (simp add: has_args_def tokenize_def MAX_ARGS_def)
  have c: "length [''ls -l '', '' grep x '', '' sort '', '' wc''] = 1 \<longrightarrow>
      external_command (hd [''ls -l '', '' grep x '', '' sort '', '' wc''])"
    by simp
  have p: "\<forall>j<length [''ls -l '', '' grep x '', '' sort '', '' wc''] - 1.
      pipe_result example_world (pipes_made initial_os + j) \<noteq> None"
    by (simp add: example_world_def)
  have f: "\<forall>j<length [''ls -l '', '' grep x '', '' sort '', '' wc''].
      0 < fork_result example_world (forks_made initial_os + j)"
    by (simp add: example_world_def)
  have tr: "spawns (trace initial_os) = []"
    by (simp add: initial_os_def)
  have l: "replicate (length [''ls -l '', '' grep x '', '' sort '', '' wc''] - 1) Pipe_created @
      map Forked_stage [1..<length [''ls -l '', '' grep x '', '' sort '', '' wc''] + 1] =
      [Pipe_created, Pipe_created, Pipe_created,
       Forked_stage 1, Forked_stage 2, Forked_stage 3, Forked_stage 4]"
    by code_simp
  have "\<exists>v s'. exec_cmdline example_world ''ls -l | grep x | sort | wc'' initial_os = Returns v s' \<and>
      spawns (trace s') =
        [Pipe_created, Pipe_created, Pipe_created,
         Forked_stage 1, Forked_stage 2, Forked_stage 3, Forked_stage 4]"
    using pipeline_pipes_then_forks [OF a _ b c p f]
    unfolding tr l by simp
  moreover have "spawns (trace_of (exec_cmdline example_world ''ls -l | grep x | sort | wc'' initial_os)) =
     [Pipe_created, Pipe_created, Pipe_created,
      Forked_stage 1, Forked_stage 2, Forked_stage 3, Forked_stage 4]"
    by code_simp
  moreover have "external_command ''ls''"
    by code_simp
  moreover have "spawns (trace_of (exec_cmdline example_world ''ls'' initial_os)) = [Forked_stage 1]"
    by code_simp
  ultimately show ?thesis
    using a b by (simp add: list_all_iff)
qed

text \<open>
  In \<^verbatim>\<open>ls | | wc\<close> stage 2 is the first empty one: both pipes and the child of stage 1
  exist by then, and nothing is forked for the stages 2 and 3.
\<close>

theorem empty_stage_reported_witness:
  "tokenize MAX_CMDS ''ls | | wc'' ''|'' = Some [''ls '', '' '', '' wc''] \<and>
   tokenize MAX_ARGS ([''ls '', '' '', '' wc''] ! (2 - 1)) '' '' = Some [] \<and>
   has_args ([''ls '', '' '', '' wc''] ! 0) \<and>
   (\<exists>s'. exec_cmdline example_world ''ls | | wc'' initial_os = Returns 2 s' \<and>
      last (trace s') = Stderr Empty_command \<and>
      spawns (trace s') = [Pipe_created, Pipe_created, Forked_stage 1]) \<and>
   result_of (exec_cmdline example_world ''ls | | wc'' initial_os) = Some 2"
proof -
  have a: "tokenize MAX_CMDS ''ls | | wc'' ''|'' = Some [''ls '', '' '', '' wc'']"
    by (simp add: tokenize_def MAX_CMDS_def)
  have e: "tokenize MAX_ARGS ([''ls '', '' '', '' wc''] ! (2 - 1)) '' '' = Some []"
    by (simp add: tokenize_def MAX_ARGS_def)
  have h: "has_args ([''ls '', '' '', '' wc''] ! 0)"
    by (simp add: has_args_def tokenize_def MAX_ARGS_def)
  then have b: "\<forall>j<2 - 1. has_args ([''ls '', '' '', '' wc''] ! j)"
    by simp
  have p: "(2::nat) = 1 \<or> (\<forall>j<length [''ls '', '' '', '' wc''] - 1.
      pipe_result example_world (pipes_made initial_os + j) \<noteq> None)"
    by (simp add: example_world_def)
  have f: "\<forall>j<2 - 1. 0 < fork_result example_world (forks_made initial_os + j)"
    by (simp add: example_world_def)
  have tr: "spawns (trace initial_os) = []"
    by (simp add: initial_os_def)
  have l: "(if (2::nat) = 1 then []
        else replicate (length [''ls '', '' '', '' wc''] - 1) Pipe_created @ map Forked_stage [1..<2]) =
      [Pipe_created, Pipe_created, Forked_stage 1]"
    by code_simp
  have "\<exists>s'. exec_cmdline example_world ''ls | | wc'' initial_os = Returns 2 s' \<and>
      last (trace s') = Stderr Empty_command \<and>
      spawns (trace s') = [Pipe_created, Pipe_created, Forked_stage 1]"
    using empty_stage_reported [OF a _ _ e b p f]
    unfolding tr l by simp
  moreover have "result_of (exec_cmdline example_world ''ls | | wc'' initial_os) = Some 2"
    by code_simp
  ultimately show ?thesis
    using a e h by simp
qed

section \<open>Background execution\<close>

lemma child_code_background:
  "child_code w a cmd (Suc 0) True fds k =
     [C_setpgid_self, C_signals_default] @
     (if execvp_ok w a then [C_execvp a] else [C_execvp a, C_exit EXIT_FAILURE])"
  by (simp add: child_code_def c_init_def)

text \<open>
  Claim C4. Take a single-stage line whose first argument is not the name of a
  built-in command and whose last argument is \<^verbatim>\<open>&\<close>. With two or more arguments
  \<^verbatim>\<open>exec_cmd\<close> calls \<^verbatim>\<open>fork_exec_wait\<close> on the vector without the marker, in background
  mode: when \<^verbatim>\<open>fork\<close> succeeds, the child does not take the terminal, it executes the
  vector without the marker, and the parent prints "Spawned in background" and returns
  0 without waiting. With the marker alone \<^verbatim>\<open>exec_cmd\<close> returns -1 and changes nothing,
  so \<^verbatim>\<open>exec_cmdline\<close> reports the failure of stage 1 and nothing was spawned.
\<close>

theorem background_marker:
  assumes "args \<noteq> []" and "hd args \<notin> set builtin_names" and "last args = ''&''"
  shows "(2 \<le> length args \<longrightarrow>
            exec_cmd w args cmd 1 s = fork_exec_wait w (butlast args) cmd 1 True s) \<and>
         (2 \<le> length args \<and> 0 < fork_result w (forks_made s) \<longrightarrow>
            exec_cmd w args cmd 1 s =
              Returns 0
                (emit (Stdout (Spawned_in_background (fork_result w (forks_made s))))
                   (emit (Fork (fork_result w (forks_made s)) cmd
                            ([C_setpgid_self, C_signals_default] @
                             (if execvp_ok w (butlast args) then [C_execvp (butlast args)]
                              else [C_execvp (butlast args), C_exit EXIT_FAILURE])))
                      (s\<lparr>forks_made := Suc (forks_made s),
                         forked := (fork_result w (forks_made s), butlast args) # forked s\<rparr>)))) \<and>
         (length args = 1 \<longrightarrow>
            args = [''&''] \<and> exec_cmd w args cmd 1 s = Returns (- 1) s \<and>
            exec_stages w [''&''] 0 1 s = Returns 1 (emit (Stderr (Command_failed [''&''])) s))"
proof -
  have e: "exec_cmd w args cmd (Suc 0) s =
      (if 2 \<le> length args then fork_exec_wait w (butlast args) cmd (Suc 0) True s
       else Returns (- 1) s)"
    using assms by (simp add: exec_cmd_external)
  have one: "length args = 1 \<Longrightarrow> args = [''&'']"
    using assms(3) by (cases args) auto
  have "exec_stages w [''&''] 0 (Suc 0) s = Returns 1 (emit (Stderr (Command_failed [''&''])) s)"
    by (simp add: exec_stages.simps tokenize_def MAX_ARGS_def exec_cmd.simps)
  with e one show ?thesis
    by (auto simp: fork_background child_code_background)
qed

text \<open>
  The lines \<^verbatim>\<open>sleep 5 &\<close> and \<^verbatim>\<open>&\<close>.
\<close>

theorem background_marker_witness:
  "hd [''sleep'', ''5'', ''&''] \<notin> set builtin_names \<and>
   last [''sleep'', ''5'', ''&''] = ''&'' \<and>
   exec_cmd example_world [''sleep'', ''5'', ''&''] 1 1 initial_os =
     fork_exec_wait example_world [''sleep'', ''5''] 1 1 True initial_os \<and>
   exec_cmd example_world [''sleep'', ''5'', ''&''] 1 1 initial_os =
     Returns 0
       (initial_os\<lparr>trace := [Fork 101 1 [C_setpgid_self, C_signals_default, C_execvp [''sleep'', ''5'']],
                             Stdout (Spawned_in_background 101)],
                   forks_made := 1, forked := [(101, [''sleep'', ''5''])]\<rparr>) \<and>
   exec_cmd example_world [''&''] 1 1 initial_os = Returns (- 1) initial_os \<and>
   result_of (exec_cmdline example_world ''&'' initial_os) = Some 1 \<and>
   spawns (trace_of (exec_cmdline example_world ''&'' initial_os)) = []"
proof -
  have h: "[''sleep'', ''5'', ''&''] \<noteq> []" "hd [''sleep'', ''5'', ''&''] \<notin> set builtin_names"
    "last [''sleep'', ''5'', ''&''] = ''&''"
    by (simp_all add: builtin_names_def)
  have g: "[''&''] \<noteq> []" "hd [''&''] \<notin> set builtin_names" "last [''&''] = ''&''"
    by (simp_all add: builtin_names_def)
  have "exec_cmd example_world [''sleep'', ''5'', ''&''] 1 1 initial_os =
     fork_exec_wait example_world [''sleep'', ''5''] 1 1 True initial_os"
    using background_marker [OF h, where w = example_world and cmd = 1 and s = initial_os]
    by simp
  moreover have "exec_cmd example_world [''sleep'', ''5'', ''&''] 1 1 initial_os =
     Returns 0
       (initial_os\<lparr>trace := [Fork 101 1 [C_setpgid_self, C_signals_default, C_execvp [''sleep'', ''5'']],
                             Stdout (Spawned_in_background 101)],
                   forks_made := 1, forked := [(101, [''sleep'', ''5''])]\<rparr>)"
    by code_simp
  moreover have "exec_cmd example_world [''&''] 1 1 initial_os = Returns (- 1) initial_os"
    using background_marker [OF g, where w = example_world and cmd = 1 and s = initial_os] by simp
  moreover have "result_of (exec_cmdline example_world ''&'' initial_os) = Some 1"
    by code_simp
  moreover have "spawns (trace_of (exec_cmdline example_world ''&'' initial_os)) = []"
    by code_simp
  ultimately show ?thesis
    using h by simp
qed

text \<open>
  Claim C9. For a single-stage background command (the last of two or more arguments
  is \<^verbatim>\<open>&\<close>, the first is not a built-in name), once \<^verbatim>\<open>fork\<close> has succeeded \<^verbatim>\<open>exec_cmd\<close>
  returns 0 in every world, whether or not the child can load its program: exactly
  one child is forked, no synchronous wait is made, what the kernel holds for later
  collection is untouched, and \<^verbatim>\<open>exec_cmdline\<close> reports no failure for the line.
\<close>

theorem background_returns_zero:
  assumes "args \<noteq> []" and "hd args \<notin> set builtin_names"
    and "last args = ''&''" and "2 \<le> length args"
    and "0 < fork_result w (forks_made s)"
  shows "\<exists>s'. exec_cmd w args 1 1 s = Returns 0 s' \<and>
     spawns (trace s') = spawns (trace s) @ [Forked_stage 1] \<and>
     waits (trace s') = waits (trace s) \<and>
     pending s' = pending s \<and> tty_fg s' = tty_fg s \<and>
     (\<forall>c. tokenize MAX_ARGS c '' '' = Some args \<longrightarrow> exec_stages w [c] 0 1 s = Returns 0 s')"
proof -
  have e: "exec_cmd w args (Suc 0) (Suc 0) s = fork_exec_wait w (butlast args) (Suc 0) (Suc 0) True s"
    using assms by (simp add: exec_cmd_external)
  show ?thesis
    using assms(1) by (simp add: e fork_background [OF assms(5)] exec_stages.simps)
qed

text \<open>
  The line \<^verbatim>\<open>nosuch &\<close>: the child fails to load its program and exits with
  \<^verbatim>\<open>EXIT_FAILURE\<close>; the shell returns 0 and has not waited.
\<close>

theorem background_returns_zero_witness:
  "hd [''nosuch'', ''&''] \<notin> set builtin_names \<and> last [''nosuch'', ''&''] = ''&'' \<and>
   \<not> execvp_ok example_world [''nosuch''] \<and>
   (\<exists>s'. exec_cmd example_world [''nosuch'', ''&''] 1 1 initial_os = Returns 0 s' \<and>
      spawns (trace s') = [Forked_stage 1] \<and> waits (trace s') = [] \<and> pending s' = []) \<and>
   result_of (exec_cmdline example_world ''nosuch &'' initial_os) = Some 0 \<and>
   trace_of (exec_cmdline example_world ''nosuch &'' initial_os) =
     [Fork 101 1 [C_setpgid_self, C_signals_default, C_execvp [''nosuch''], C_exit 1],
      Stdout (Spawned_in_background 101)]"
proof -
  have h: "[''nosuch'', ''&''] \<noteq> []" "hd [''nosuch'', ''&''] \<notin> set builtin_names"
    "last [''nosuch'', ''&''] = ''&''" "2 \<le> length [''nosuch'', ''&'']"
    by (simp_all add: builtin_names_def)
  have f: "0 < fork_result example_world (forks_made initial_os)"
    by (simp add: example_world_def)
  have i: "spawns (trace initial_os) = []" "waits (trace initial_os) = []" "pending initial_os = []"
    by (simp_all add: initial_os_def)
  have "\<exists>s'. exec_cmd example_world [''nosuch'', ''&''] 1 1 initial_os = Returns 0 s' \<and>
      spawns (trace s') = [Forked_stage 1] \<and> waits (trace s') = [] \<and> pending s' = []"
    using background_returns_zero [OF h f] unfolding i by auto
  moreover have "\<not> execvp_ok example_world [''nosuch'']"
    by (simp add: example_world_def)
  moreover have "result_of (exec_cmdline example_world ''nosuch &'' initial_os) = Some 0"
    by code_simp
  moreover have "trace_of (exec_cmdline example_world ''nosuch &'' initial_os) =
     [Fork 101 1 [C_setpgid_self, C_signals_default, C_execvp [''nosuch''], C_exit 1],
      Stdout (Spawned_in_background 101)]"
    by code_simp
  ultimately show ?thesis
    using h by simp
qed

section \<open>Built-in commands by argument count\<close>

lemma builtin_recognized:
    "exec_cmd w [''cd''] cmd (Suc 0) s = then_return (change_dir w ''~'' s) 0"
    "exec_cmd w [''cd'', a] cmd (Suc 0) s = then_return (change_dir w a s) 0"
    "exec_cmd w [''checkEnv''] cmd (Suc 0) s = then_return (check_env w [''checkEnv''] s) 0"
    "exec_cmd w [''checkEnv'', a] cmd (Suc 0) s = then_return (check_env w [''checkEnv'', a] s) 0"
    "exec_cmd w [''exit''] cmd (Suc 0) s = then_return (term_all w s) 0"
    "exec_cmd w [''fg'', a] cmd (Suc 0) s = Returns 0 (put_fg w a s)"
    by (simp_all add: exec_cmd.simps)


lemma builtin_wrong_arity: "exec_cmd w args cmd (Suc 0) s = Returns (- 1) s"
    if "args \<noteq> []" "hd args \<in> set builtin_names"
      "length args \<notin> set (builtin_arities (hd args))"
proof -
  have l: "length args \<le> 2 \<Longrightarrow> length args \<noteq> 2 \<Longrightarrow> length args = 1"
    using that(1) by (cases args) (auto simp: le_Suc_eq numeral_2_eq_2)
  from that(2) consider "hd args = ''cd''" | "hd args = ''checkEnv''" |
      "hd args = ''exit''" | "hd args = ''fg''"
    by (auto simp: builtin_names_def)
  then show ?thesis
  proof cases
    case 1
    with that(1,3) show ?thesis
      by (simp add: exec_cmd.simps builtin_arities_def)
  next
    case 2
    with that(3) l have "\<not> length args \<le> 2"
      by (auto simp: builtin_arities_def)
    with 2 that(1) show ?thesis
      by (simp add: exec_cmd.simps)
  next
    case 3
    with that(1,3) show ?thesis
      by (simp add: exec_cmd.simps builtin_arities_def)
  next
    case 4
    with that(1,3) show ?thesis
      by (simp add: exec_cmd.simps builtin_arities_def)
  qed
qed


text \<open>
  Claim C7. In a pipeline of more than one stage \<^verbatim>\<open>exec_cmd\<close> recognizes no built-in
  command: every stage goes to \<^verbatim>\<open>fork_exec_wait\<close>. In a single-stage line \<^verbatim>\<open>cd\<close> is run
  with 1 or 2 arguments (the command name counted), \<^verbatim>\<open>checkEnv\<close> with 1 or 2, \<^verbatim>\<open>exit\<close>
  with 1 and \<^verbatim>\<open>fg\<close> with 2; a built-in name with any other number of arguments makes
  \<^verbatim>\<open>exec_cmd\<close> return -1 with nothing done, so nothing is spawned, and \<^verbatim>\<open>exec_cmdline\<close>
  reports the failure of stage 1.
\<close>

theorem builtins_by_arity:
  "(n \<noteq> 1 \<and> args \<noteq> [] \<longrightarrow> exec_cmd w args cmd n s = fork_exec_wait w args cmd n False s) \<and>
   exec_cmd w [''cd''] cmd 1 s = then_return (change_dir w ''~'' s) 0 \<and>
   exec_cmd w [''cd'', a] cmd 1 s = then_return (change_dir w a s) 0 \<and>
   exec_cmd w [''checkEnv''] cmd 1 s = then_return (check_env w [''checkEnv''] s) 0 \<and>
   exec_cmd w [''checkEnv'', a] cmd 1 s = then_return (check_env w [''checkEnv'', a] s) 0 \<and>
   exec_cmd w [''exit''] cmd 1 s = then_return (term_all w s) 0 \<and>
   exec_cmd w [''fg'', a] cmd 1 s = Returns 0 (put_fg w a s) \<and>
   (args \<noteq> [] \<and> hd args \<in> set builtin_names \<and>
    length args \<notin> set (builtin_arities (hd args)) \<longrightarrow>
      exec_cmd w args cmd 1 s = Returns (- 1) s) \<and>
   (\<forall>c. tokenize MAX_ARGS c '' '' = Some args \<and> args \<noteq> [] \<and> hd args \<in> set builtin_names \<and>
      length args \<notin> set (builtin_arities (hd args)) \<longrightarrow>
      exec_stages w [c] 0 1 s = Returns 1 (emit (Stderr (Command_failed args)) s))"
proof (intro conjI impI allI)
  fix c
  assume a: "tokenize MAX_ARGS c '' '' = Some args \<and> args \<noteq> [] \<and> hd args \<in> set builtin_names \<and>
      length args \<notin> set (builtin_arities (hd args))"
  then have "exec_cmd w args (0 + 1) (Suc 0) s = Returns (- 1) s"
    by (intro builtin_wrong_arity) simp_all
  with a show "exec_stages w [c] 0 1 s = Returns 1 (emit (Stderr (Command_failed args)) s)"
    by (simp add: exec_stages.simps)
qed (simp_all add: exec_cmd_piping builtin_recognized builtin_wrong_arity)


text \<open>
  \<^verbatim>\<open>cd a b\<close> fails and spawns nothing; \<^verbatim>\<open>cd /tmp\<close> changes the directory; in
  \<^verbatim>\<open>cd /tmp | wc\<close> a child is forked for \<^verbatim>\<open>cd\<close> as for any program.
\<close>

theorem builtins_by_arity_witness:
  "hd [''cd'', ''a'', ''b''] \<in> set builtin_names \<and>
   length [''cd'', ''a'', ''b''] \<notin> set (builtin_arities (hd [''cd'', ''a'', ''b''])) \<and>
   exec_cmd example_world [''cd'', ''a'', ''b''] 1 2 initial_os =
     fork_exec_wait example_world [''cd'', ''a'', ''b''] 1 2 False initial_os \<and>
   exec_cmd example_world [''cd'', ''a'', ''b''] 1 1 initial_os = Returns (- 1) initial_os \<and>
   exec_cmdline example_world ''cd a b'' initial_os =
     Returns 1 (initial_os\<lparr>trace := [Stderr (Command_failed [''cd'', ''a'', ''b''])]\<rparr>) \<and>
   exec_cmdline example_world ''cd /tmp'' initial_os =
     Returns 0 (initial_os\<lparr>trace := [Chdir ''/tmp'' True]\<rparr>) \<and>
   spawns (trace_of (exec_cmdline example_world ''cd /tmp | wc'' initial_os)) =
     [Pipe_created, Forked_stage 1, Forked_stage 2]"
proof -
  have h: "[''cd'', ''a'', ''b''] \<noteq> []" "hd [''cd'', ''a'', ''b''] \<in> set builtin_names"
    "length [''cd'', ''a'', ''b''] \<notin> set (builtin_arities (hd [''cd'', ''a'', ''b'']))"
    by (simp_all add: builtin_names_def builtin_arities_def)
  have "exec_cmd example_world [''cd'', ''a'', ''b''] 1 2 initial_os =
     fork_exec_wait example_world [''cd'', ''a'', ''b''] 1 2 False initial_os"
    using builtins_by_arity [where n = 2 and args = "[''cd'', ''a'', ''b'']" and w = example_world
        and cmd = 1 and s = initial_os]
    by simp
  moreover have "exec_cmd example_world [''cd'', ''a'', ''b''] 1 1 initial_os = Returns (- 1) initial_os"
    using h builtins_by_arity [where args = "[''cd'', ''a'', ''b'']" and w = example_world
        and cmd = 1 and s = initial_os]
    by blast
  moreover have "exec_cmdline example_world ''cd a b'' initial_os =
     Returns 1 (initial_os\<lparr>trace := [Stderr (Command_failed [''cd'', ''a'', ''b''])]\<rparr>)"
    by code_simp
  moreover have "exec_cmdline example_world ''cd /tmp'' initial_os =
     Returns 0 (initial_os\<lparr>trace := [Chdir ''/tmp'' True]\<rparr>)"
    by code_simp
  moreover have "spawns (trace_of (exec_cmdline example_world ''cd /tmp | wc'' initial_os)) =
     [Pipe_created, Forked_stage 1, Forked_stage 2]"
    by code_simp
  ultimately show ?thesis
    using h by simp
qed

section \<open>The built-in command checkEnv\<close>

text \<open>
  How the line \<^verbatim>\<open>get_env_cmd\<close> composes is split into stages, and a stage into its
  arguments: a word without delimiters stays one token.
\<close>

lemma strtok_word:
  "set f \<inter> set delim = {} \<Longrightarrow> strtok_all delim tok (f @ rest) = strtok_all delim (tok @ f) rest"
  by (induction f arbitrary: tok) auto

lemma strtok_tail:
  "set p \<inter> set delim = {} \<Longrightarrow> strtok_all delim tok p = (if tok @ p = [] then [] else [tok @ p])"
  using strtok_word [of p delim tok "[]"] by simp

lemma listing_stages:
  assumes "CHR ''|'' \<notin> set pager"
  shows "strtok_all ''|'' [] (get_env_cmd [c] pager) = [''printenv '', '' sort '', '' '' @ pager]"
    and "CHR ''|'' \<notin> set f \<Longrightarrow> strtok_all ''|'' [] (get_env_cmd [c, f] pager) =
       [''printenv '', '' sort '', '' grep '' @ f @ '' '', '' '' @ pager]"
  using assms by (simp_all add: get_env_cmd_def strtok_word strtok_tail)

lemma grep_stage:
  assumes "f \<noteq> []" "CHR '' '' \<notin> set f"
  shows "strtok_all '' '' [] ('' grep '' @ f @ '' '') = [''grep'', f]"
  using assms by (simp add: strtok_word)


text \<open>
  The composed line runs as a pipeline of three or four stages; the child waited for
  is the one of the pager.
\<close>

lemma listing_pipeline:
  assumes args: "args = [c] \<or> args = [c, f] \<and> f \<noteq> [] \<and> CHR ''|'' \<notin> set f \<and> CHR '' '' \<notin> set f"
    and pager: "CHR ''|'' \<notin> set pager" "has_args pager"
    and pipes: "\<forall>j<length args + 1. pipe_result w (pipes_made s + j) \<noteq> None"
    and forks: "\<forall>j<length args + 2. 0 < fork_result w (forks_made s + j)"
  shows "\<exists>r s'. exec_cmdline w (get_env_cmd args pager) s =
       Returns (if WEXITSTATUS (returned_status w r) = EXIT_FAILURE
                then int (length args + 2) else 0) s' \<and>
     spawns (trace s') = spawns (trace s) @ replicate (length args + 1) Pipe_created
        @ map Forked_stage [1..<length args + 3] \<and>
     waits (trace s') = waits (trace s) @ [(fork_result w (forks_made s + (length args + 1)), r)] \<and>
     r = awaited w (pending s) (fork_result w (forks_made s + (length args + 1)))
           (stage_args pager)"
proof -
  define cmds where "cmds = strtok_all ''|'' [] (get_env_cmd args pager)"
  have cmds: "cmds = [''printenv '', '' sort '', '' '' @ pager] \<and> args = [c] \<or>
      cmds = [''printenv '', '' sort '', '' grep '' @ f @ '' '', '' '' @ pager] \<and> args = [c, f]"
    using args pager(1) unfolding cmds_def by (auto simp: listing_stages)
  have len: "length cmds = length args + 2"
    using cmds by auto
  have tok: "tokenize MAX_CMDS (get_env_cmd args pager) ''|'' = Some cmds"
    using len args unfolding cmds_def by (auto simp: tokenize_def MAX_CMDS_def)
  have p: "has_args ('' '' @ pager)" "stage_args ('' '' @ pager) = stage_args pager"
    using pager(2) by (simp_all add: has_args_def stage_args_def tokenize_def)
  have g: "has_args ('' grep '' @ f @ '' '')" if "args = [c, f]"
  proof -
    from args that have "strtok_all '' '' [] ('' grep '' @ f @ '' '') = [''grep'', f]"
      by (intro grep_stage) auto
    then show ?thesis
      unfolding has_args_def tokenize_def Let_def by (simp only:) (simp add: MAX_ARGS_def)
  qed
  have h: "\<forall>c\<in>set cmds. has_args c"
    using cmds p g by (auto simp: has_args_def tokenize_def MAX_ARGS_def)
  have l: "last cmds = '' '' @ pager"
    using cmds by auto
  have "\<exists>r s'. exec_stages w cmds 0 (length cmds) s =
       Returns (if WEXITSTATUS (returned_status w r) = EXIT_FAILURE
                then int (length cmds) else 0) s' \<and>
     spawns (trace s') = spawns (trace s) @ replicate (length cmds - 1) Pipe_created
        @ map Forked_stage [1..<length cmds + 1] \<and>
     waits (trace s') = waits (trace s) @ [(fork_result w (forks_made s + (length cmds - 1)), r)] \<and>
     r = awaited w (pending s) (fork_result w (forks_made s + (length cmds - 1)))
           (stage_args (last cmds))"
    using h pipes forks by (intro stages_piped) (simp_all add: len)
  then show ?thesis
    unfolding exec_cmdline_stages [OF tok] l p(2) len by (simp add: numeral_3_eq_3)
qed


lemma check_env_other_pager:
  assumes "getenv w ''PAGER'' = Some p" "p \<noteq> ''less''" "length (get_env_cmd args p) \<le> STR_LEN"
  shows "check_env w args s =
     then_return (exec_cmdline w (get_env_cmd args p)
        (emit (Stdout (Actual_command_line (get_env_cmd args p))) s)) ()"
proof -
  have "length p \<le> STR_LEN"
    using assms(3) by (simp add: get_env_cmd_def split: if_splits)
  then show ?thesis
    using assms by (simp add: check_env.simps then_return_def split: outcome.splits)
qed

lemma exit_failure_status: "WEXITSTATUS (W_EXITCODE EXIT_FAILURE 0) = EXIT_FAILURE"
  by (simp add: WEXITSTATUS_def W_EXITCODE_def EXIT_FAILURE_def)

lemma check_env_less:
  assumes pager: "getenv w ''PAGER'' = None \<or> getenv w ''PAGER'' = Some ''less''"
    and args: "args = [c] \<or> args = [c, f] \<and> f \<noteq> [] \<and> CHR ''|'' \<notin> set f \<and> CHR '' '' \<notin> set f"
    and len: "length (get_env_cmd args ''less'') \<le> STR_LEN"
    and pipes: "\<forall>j<length args + 1. pipe_result w (pipes_made s + j) \<noteq> None"
    and forks: "\<forall>j<length args + 2. 0 < fork_result w (forks_made s + j)"
  shows "\<exists>r s'. exec_cmdline w (get_env_cmd args ''less'')
         (emit (Stdout (Actual_command_line (get_env_cmd args ''less''))) s) =
       Returns (if WEXITSTATUS (returned_status w r) = EXIT_FAILURE
                then int (length args + 2) else 0) s' \<and>
     waits (trace s') = waits (trace s) @ [(fork_result w (forks_made s + (length args + 1)), r)] \<and>
     r = awaited w (pending s) (fork_result w (forks_made s + (length args + 1))) [''less''] \<and>
     check_env w args s =
       (if WEXITSTATUS (returned_status w r) = EXIT_FAILURE
        then then_return (exec_cmdline w (get_env_cmd args ''more'')
               (emit (Stdout (Actual_command_line (get_env_cmd args ''more''))) s')) ()
        else Returns () s')"
proof -
  let ?line = "get_env_cmd args ''less''"
  let ?s = "emit (Stdout (Actual_command_line ?line)) s"
  have less: "CHR ''|'' \<notin> set ''less''" "has_args ''less''" "stage_args ''less'' = [''less'']"
    by (simp_all add: has_args_def stage_args_def tokenize_def MAX_ARGS_def)
  have "\<exists>r s'. exec_cmdline w ?line ?s =
       Returns (if WEXITSTATUS (returned_status w r) = EXIT_FAILURE
                then int (length args + 2) else 0) s' \<and>
     spawns (trace s') = spawns (trace ?s) @ replicate (length args + 1) Pipe_created
        @ map Forked_stage [1..<length args + 3] \<and>
     waits (trace s') = waits (trace ?s) @ [(fork_result w (forks_made ?s + (length args + 1)), r)] \<and>
     r = awaited w (pending ?s) (fork_result w (forks_made ?s + (length args + 1)))
           (stage_args ''less'')"
    using args less(1,2) pipes forks by (intro listing_pipeline [where c = c and f = f]) simp_all
  then obtain r s' where
    run: "exec_cmdline w ?line ?s =
       Returns (if WEXITSTATUS (returned_status w r) = EXIT_FAILURE
                then int (length args + 2) else 0) s'"
    and wt: "waits (trace s') = waits (trace s) @ [(fork_result w (forks_made s + (length args + 1)), r)]"
    and r: "r = awaited w (pending s) (fork_result w (forks_made s + (length args + 1))) [''less'']"
    unfolding less(3) by auto
  have more: "length (get_env_cmd args ''more'') \<le> STR_LEN"
    using len by (simp add: get_env_cmd_def split: if_splits)
  have n: "(if length args < 2 then 3 else 4) = int (length args + 2)"
    using args by auto
  have sel: "(case getenv w ''PAGER'' of Some p \<Rightarrow> if length p \<le> STR_LEN then Some p else None
      | None \<Rightarrow> Some ''less'') = Some ''less''"
    using pager by (auto simp: STR_LEN_def)
  have "check_env w args s =
       (if WEXITSTATUS (returned_status w r) = EXIT_FAILURE
        then then_return (exec_cmdline w (get_env_cmd args ''more'')
               (emit (Stdout (Actual_command_line (get_env_cmd args ''more''))) s')) ()
        else Returns () s')"
    apply (subst check_env.simps)
    apply (simp only: sel Let_def option.case n run outcome.case)
    using len more apply simp
    done
  with run wt r show ?thesis
    by blast
qed



text \<open>
  The pager of \<^verbatim>\<open>checkEnv\<close>, where the synchronous wait collects the pager's child.
  When the variable \<^verbatim>\<open>PAGER\<close> is set, to a pager other than \<^verbatim>\<open>less\<close>,
  \<^verbatim>\<open>check_env\<close> runs the listing pipeline once, with that pager. When it is not set (or
  set to \<^verbatim>\<open>less\<close>) the pipeline is run with \<^verbatim>\<open>less\<close>, and it is run again with \<^verbatim>\<open>more\<close>
  exactly when the status \<^verbatim>\<open>c_wait\<close> returns for the pager's child has exit status
  \<^verbatim>\<open>EXIT_FAILURE\<close>. This is the case when \<^verbatim>\<open>less\<close> cannot be loaded and \<^verbatim>\<open>waitpid\<close> collects
  that child: the child then exits with \<^verbatim>\<open>EXIT_FAILURE\<close>. The filter, if any, is a word
  without a space or a bar, as \<^verbatim>\<open>exec_cmdline\<close> passes it, and no \<^verbatim>\<open>pipe\<close> or \<^verbatim>\<open>fork\<close> call
  fails.
\<close>

theorem check_env_pager:
  "(getenv w ''PAGER'' = Some p \<and> p \<noteq> ''less'' \<and> length (get_env_cmd args p) \<le> STR_LEN \<longrightarrow>
      check_env w args s =
        then_return (exec_cmdline w (get_env_cmd args p)
           (emit (Stdout (Actual_command_line (get_env_cmd args p))) s)) ()) \<and>
   ((getenv w ''PAGER'' = None \<or> getenv w ''PAGER'' = Some ''less'') \<and>
    (args = [c] \<or> args = [c, f] \<and> f \<noteq> [] \<and> CHR ''|'' \<notin> set f \<and> CHR '' '' \<notin> set f) \<and>
    length (get_env_cmd args ''less'') \<le> STR_LEN \<and>
    (\<forall>j<length args + 1. pipe_result w (pipes_made s + j) \<noteq> None) \<and>
    (\<forall>j<length args + 2. 0 < fork_result w (forks_made s + j)) \<longrightarrow>
      (\<exists>r s'. exec_cmdline w (get_env_cmd args ''less'')
             (emit (Stdout (Actual_command_line (get_env_cmd args ''less''))) s) =
           Returns (if WEXITSTATUS (returned_status w r) = EXIT_FAILURE
                    then int (length args + 2) else 0) s' \<and>
         waits (trace s') =
           waits (trace s) @ [(fork_result w (forks_made s + (length args + 1)), r)] \<and>
         r = awaited w (pending s) (fork_result w (forks_made s + (length args + 1))) [''less''] \<and>
         (\<not> execvp_ok w [''less''] \<and>
          \<not> wait_fails w (fork_result w (forks_made s + (length args + 1))) \<and>
          map_of (pending s) (fork_result w (forks_made s + (length args + 1))) = None \<longrightarrow>
            WEXITSTATUS (returned_status w r) = EXIT_FAILURE) \<and>
         check_env w args s =
           (if WEXITSTATUS (returned_status w r) = EXIT_FAILURE
            then then_return (exec_cmdline w (get_env_cmd args ''more'')
                   (emit (Stdout (Actual_command_line (get_env_cmd args ''more''))) s')) ()
            else Returns () s')))"
proof (intro conjI impI)
  assume "getenv w ''PAGER'' = Some p \<and> p \<noteq> ''less'' \<and> length (get_env_cmd args p) \<le> STR_LEN"
  then show "check_env w args s =
        then_return (exec_cmdline w (get_env_cmd args p)
           (emit (Stdout (Actual_command_line (get_env_cmd args p))) s)) ()"
    by (intro check_env_other_pager) simp_all
next
  let ?pid = "fork_result w (forks_made s + (length args + 1))"
  assume a: "(getenv w ''PAGER'' = None \<or> getenv w ''PAGER'' = Some ''less'') \<and>
    (args = [c] \<or> args = [c, f] \<and> f \<noteq> [] \<and> CHR ''|'' \<notin> set f \<and> CHR '' '' \<notin> set f) \<and>
    length (get_env_cmd args ''less'') \<le> STR_LEN \<and>
    (\<forall>j<length args + 1. pipe_result w (pipes_made s + j) \<noteq> None) \<and>
    (\<forall>j<length args + 2. 0 < fork_result w (forks_made s + j))"
  have "\<exists>r s'. exec_cmdline w (get_env_cmd args ''less'')
         (emit (Stdout (Actual_command_line (get_env_cmd args ''less''))) s) =
       Returns (if WEXITSTATUS (returned_status w r) = EXIT_FAILURE
                then int (length args + 2) else 0) s' \<and>
     waits (trace s') = waits (trace s) @ [(?pid, r)] \<and>
     r = awaited w (pending s) ?pid [''less''] \<and>
     check_env w args s =
       (if WEXITSTATUS (returned_status w r) = EXIT_FAILURE
        then then_return (exec_cmdline w (get_env_cmd args ''more'')
               (emit (Stdout (Actual_command_line (get_env_cmd args ''more''))) s')) ()
        else Returns () s')"
    using a by (intro check_env_less [where c = c and f = f]) simp_all
  then obtain r s' where
    run: "exec_cmdline w (get_env_cmd args ''less'')
         (emit (Stdout (Actual_command_line (get_env_cmd args ''less''))) s) =
       Returns (if WEXITSTATUS (returned_status w r) = EXIT_FAILURE
                then int (length args + 2) else 0) s'"
    and wt: "waits (trace s') = waits (trace s) @ [(?pid, r)]"
    and r: "r = awaited w (pending s) ?pid [''less'']"
    and ce: "check_env w args s =
       (if WEXITSTATUS (returned_status w r) = EXIT_FAILURE
        then then_return (exec_cmdline w (get_env_cmd args ''more'')
               (emit (Stdout (Actual_command_line (get_env_cmd args ''more''))) s')) ()
        else Returns () s')"
    by blast
  have "WEXITSTATUS (returned_status w r) = EXIT_FAILURE"
    if "\<not> execvp_ok w [''less''] \<and> \<not> wait_fails w ?pid \<and> map_of (pending s) ?pid = None"
    using that unfolding r by (simp add: awaited_def returned_status_def exit_failure_status)
  with run wt r ce show "\<exists>r s'. exec_cmdline w (get_env_cmd args ''less'')
             (emit (Stdout (Actual_command_line (get_env_cmd args ''less''))) s) =
           Returns (if WEXITSTATUS (returned_status w r) = EXIT_FAILURE
                    then int (length args + 2) else 0) s' \<and>
         waits (trace s') = waits (trace s) @ [(?pid, r)] \<and>
         r = awaited w (pending s) ?pid [''less''] \<and>
         (\<not> execvp_ok w [''less''] \<and> \<not> wait_fails w ?pid \<and> map_of (pending s) ?pid = None \<longrightarrow>
            WEXITSTATUS (returned_status w r) = EXIT_FAILURE) \<and>
         check_env w args s =
           (if WEXITSTATUS (returned_status w r) = EXIT_FAILURE
            then then_return (exec_cmdline w (get_env_cmd args ''more'')
                   (emit (Stdout (Actual_command_line (get_env_cmd args ''more''))) s')) ()
            else Returns () s')"
    by blast
qed


text \<open>
  With \<^verbatim>\<open>PAGER\<close> set to \<^verbatim>\<open>cat\<close> the listing goes to \<^verbatim>\<open>cat\<close>. Where \<^verbatim>\<open>less\<close> cannot be loaded,
  \<^verbatim>\<open>checkEnv PATH\<close> runs the pipeline with \<^verbatim>\<open>less\<close>, whose child 104 exits with status 256
  (exit status 1), and then with \<^verbatim>\<open>more\<close>.
\<close>

theorem check_env_pager_witness:
  "getenv world_with_pager ''PAGER'' = Some ''cat'' \<and>
   check_env world_with_pager [''checkEnv''] initial_os =
     then_return (exec_cmdline world_with_pager ''printenv | sort | cat''
        (emit (Stdout (Actual_command_line ''printenv | sort | cat'')) initial_os)) () \<and>
   programs (trace_of (check_env world_with_pager [''checkEnv''] initial_os)) =
     [[''printenv''], [''sort''], [''cat'']] \<and>
   getenv world_without_less ''PAGER'' = None \<and>
   \<not> execvp_ok world_without_less [''less''] \<and>
   (\<exists>s'. exec_cmdline world_without_less ''printenv | sort | grep PATH | less''
        (emit (Stdout (Actual_command_line ''printenv | sort | grep PATH | less'')) initial_os) =
        Returns 4 s' \<and>
      waits (trace s') = [(104, Some 256)] \<and>
      check_env world_without_less [''checkEnv'', ''PATH''] initial_os =
        then_return (exec_cmdline world_without_less ''printenv | sort | grep PATH | more''
          (emit (Stdout (Actual_command_line ''printenv | sort | grep PATH | more'')) s')) ()) \<and>
   command_lines (trace_of (check_env world_without_less [''checkEnv'', ''PATH''] initial_os)) =
     [''printenv | sort | grep PATH | less'', ''printenv | sort | grep PATH | more''] \<and>
   programs (trace_of (check_env example_world [''checkEnv''] initial_os)) =
     [[''printenv''], [''sort''], [''less'']]"
proof -
  have cat: "get_env_cmd [''checkEnv''] ''cat'' = ''printenv | sort | cat''"
    by (simp add: get_env_cmd_def)
  have pg: "getenv world_with_pager ''PAGER'' = Some ''cat''"
    by (simp add: world_with_pager_def)
  have a: "check_env world_with_pager [''checkEnv''] initial_os =
     then_return (exec_cmdline world_with_pager ''printenv | sort | cat''
        (emit (Stdout (Actual_command_line ''printenv | sort | cat'')) initial_os)) ()"
    using pg check_env_pager [where w = world_with_pager and p = "''cat''" and args = "[''checkEnv'']"
        and s = initial_os]
    unfolding cat by (simp add: STR_LEN_def)
  have less: "get_env_cmd [''checkEnv'', ''PATH''] ''less'' = ''printenv | sort | grep PATH | less''"
    and more: "get_env_cmd [''checkEnv'', ''PATH''] ''more'' = ''printenv | sort | grep PATH | more''"
    by (simp_all add: get_env_cmd_def)
  have none: "getenv world_without_less ''PAGER'' = None"
    by (simp add: world_without_less_def example_world_def)
  have un: "\<not> execvp_ok world_without_less [''less'']"
    by (simp add: world_without_less_def)
  have pid: "fork_result world_without_less
      (forks_made initial_os + (length [''checkEnv'', ''PATH''] + 1)) = 104"
    by (simp add: world_without_less_def example_world_def initial_os_def)
  have h: "(getenv world_without_less ''PAGER'' = None \<or>
      getenv world_without_less ''PAGER'' = Some ''less'') \<and>
    ([''checkEnv'', ''PATH''] = [''checkEnv''] \<or>
     [''checkEnv'', ''PATH''] = [''checkEnv'', ''PATH''] \<and> ''PATH'' \<noteq> [] \<and>
       CHR ''|'' \<notin> set ''PATH'' \<and> CHR '' '' \<notin> set ''PATH'') \<and>
    length (get_env_cmd [''checkEnv'', ''PATH''] ''less'') \<le> STR_LEN \<and>
    (\<forall>j<length [''checkEnv'', ''PATH''] + 1.
        pipe_result world_without_less (pipes_made initial_os + j) \<noteq> None) \<and>
    (\<forall>j<length [''checkEnv'', ''PATH''] + 2.
        0 < fork_result world_without_less (forks_made initial_os + j))"
    using none unfolding less by (simp add: STR_LEN_def world_without_less_def example_world_def)
  have k: "\<not> wait_fails world_without_less 104" "map_of (pending initial_os) 104 = None"
    "waits (trace initial_os) = []" "pending initial_os = []"
    by (simp_all add: world_without_less_def example_world_def initial_os_def)
  from h check_env_pager [where w = world_without_less and args = "[''checkEnv'', ''PATH'']"
      and c = "''checkEnv''" and f = "''PATH''" and s = initial_os]
  obtain r s' where
    run: "exec_cmdline world_without_less (get_env_cmd [''checkEnv'', ''PATH''] ''less'')
        (emit (Stdout (Actual_command_line (get_env_cmd [''checkEnv'', ''PATH''] ''less''))) initial_os) =
       Returns (if WEXITSTATUS (returned_status world_without_less r) = EXIT_FAILURE
                then int (length [''checkEnv'', ''PATH''] + 2) else 0) s'"
    and wt: "waits (trace s') = waits (trace initial_os) @ [(104, r)]"
    and r: "r = awaited world_without_less (pending initial_os) 104 [''less'']"
    and f: "\<not> execvp_ok world_without_less [''less''] \<and> \<not> wait_fails world_without_less 104 \<and>
          map_of (pending initial_os) 104 = None \<longrightarrow>
            WEXITSTATUS (returned_status world_without_less r) = EXIT_FAILURE"
    and ce: "check_env world_without_less [''checkEnv'', ''PATH''] initial_os =
           (if WEXITSTATUS (returned_status world_without_less r) = EXIT_FAILURE
            then then_return (exec_cmdline world_without_less
                   (get_env_cmd [''checkEnv'', ''PATH''] ''more'')
                   (emit (Stdout (Actual_command_line
                      (get_env_cmd [''checkEnv'', ''PATH''] ''more''))) s')) ()
            else Returns () s')"
    unfolding pid by blast
  from f un k have fail: "WEXITSTATUS (returned_status world_without_less r) = EXIT_FAILURE"
    by blast
  have rv: "r = Some 256"
    unfolding r using un k by (simp add: awaited_def W_EXITCODE_def EXIT_FAILURE_def)
  have b: "\<exists>s'. exec_cmdline world_without_less ''printenv | sort | grep PATH | less''
        (emit (Stdout (Actual_command_line ''printenv | sort | grep PATH | less'')) initial_os) =
        Returns 4 s' \<and>
      waits (trace s') = [(104, Some 256)] \<and>
      check_env world_without_less [''checkEnv'', ''PATH''] initial_os =
        then_return (exec_cmdline world_without_less ''printenv | sort | grep PATH | more''
          (emit (Stdout (Actual_command_line ''printenv | sort | grep PATH | more'')) s')) ()"
    using run wt ce fail unfolding less more rv by (intro exI [of _ s']) (simp add: k)
  have c1: "programs (trace_of (check_env world_with_pager [''checkEnv''] initial_os)) =
     [[''printenv''], [''sort''], [''cat'']]"
    by code_simp
  have c2: "command_lines (trace_of (check_env world_without_less [''checkEnv'', ''PATH''] initial_os)) =
     [''printenv | sort | grep PATH | less'', ''printenv | sort | grep PATH | more'']"
    by code_simp
  have c4: "programs (trace_of (check_env example_world [''checkEnv''] initial_os)) =
     [[''printenv''], [''sort''], [''less'']]"
    by code_simp
  from pg a c1 none un b c2 c4 show ?thesis
    by blast
qed


text \<open>
  Claim C8. \<^verbatim>\<open>checkEnv\<close> takes the pager from \<^verbatim>\<open>PAGER\<close> when it is set and \<^verbatim>\<open>less\<close> otherwise,
  and when \<^verbatim>\<open>less\<close> is unavailable it runs the listing again with \<^verbatim>\<open>more\<close>. The second part
  fails. \<^verbatim>\<open>PAGER\<close> is not set and \<^verbatim>\<open>less\<close> cannot be loaded, so the pager's child 103 exits
  with \<^verbatim>\<open>EXIT_FAILURE\<close> at once; the handler of \<^verbatim>\<open>SIGCHLD\<close> collects it before \<^verbatim>\<open>c_wait\<close>
  calls \<^verbatim>\<open>waitpid\<close>, which then fails and writes no status. \<^verbatim>\<open>c_wait\<close> returns its local
  \<^verbatim>\<open>status\<close> unwritten, here 0, \<^verbatim>\<open>exec_cmdline\<close> returns 0, and \<^verbatim>\<open>check_env\<close> runs the
  line with \<^verbatim>\<open>less\<close> only: nothing is listed. Where the unwritten \<^verbatim>\<open>status\<close> holds 256
  the listing is run again with \<^verbatim>\<open>more\<close> although \<^verbatim>\<open>less\<close> was loaded.
\<close>

theorem check_env_fallback_lost:
  "getenv race_world_without_less ''PAGER'' = None \<and>
   \<not> execvp_ok race_world_without_less [''less''] \<and>
   execvp_ok race_world_without_less [''more''] \<and>
   result_of (exec_cmdline race_world_without_less ''printenv | sort | less'' initial_os) = Some 0 \<and>
   result_of (check_env race_world_without_less [''checkEnv''] initial_os) = Some () \<and>
   command_lines (trace_of (check_env race_world_without_less [''checkEnv''] initial_os)) =
     [''printenv | sort | less''] \<and>
   programs (trace_of (check_env race_world_without_less [''checkEnv''] initial_os)) =
     [[''printenv''], [''sort''], [''less'']] \<and>
   waits (trace_of (check_env race_world_without_less [''checkEnv''] initial_os)) =
     [(103, None)] \<and>
   execvp_ok race_world_status_256 [''less''] \<and>
   command_lines (trace_of (check_env race_world_status_256 [''checkEnv''] initial_os)) =
     [''printenv | sort | less'', ''printenv | sort | more'']"
proof -
  have "getenv race_world_without_less ''PAGER'' = None"
    and "\<not> execvp_ok race_world_without_less [''less'']"
    and "execvp_ok race_world_without_less [''more'']"
    and "execvp_ok race_world_status_256 [''less'']"
    by (simp_all add: race_world_without_less_def race_world_status_256_def
        world_without_less_def example_world_def)
  moreover have "result_of (exec_cmdline race_world_without_less ''printenv | sort | less''
      initial_os) = Some 0"
    by code_simp
  moreover have "result_of (check_env race_world_without_less [''checkEnv''] initial_os) = Some ()"
    by code_simp
  moreover have "command_lines (trace_of (check_env race_world_without_less [''checkEnv'']
      initial_os)) = [''printenv | sort | less'']"
    by code_simp
  moreover have "programs (trace_of (check_env race_world_without_less [''checkEnv'']
      initial_os)) = [[''printenv''], [''sort''], [''less'']]"
    by code_simp
  moreover have "waits (trace_of (check_env race_world_without_less [''checkEnv''] initial_os)) =
     [(103, None)]"
    by code_simp
  moreover have "command_lines (trace_of (check_env race_world_status_256 [''checkEnv'']
      initial_os)) = [''printenv | sort | less'', ''printenv | sort | more'']"
    by code_simp
  ultimately show ?thesis
    by blast
qed

text \<open>
  Claim C10. The line \<^verbatim>\<open>get_env_cmd\<close> composes is \<^verbatim>\<open>printenv | sort | pager\<close> without a
  filter and \<^verbatim>\<open>printenv | sort | grep filter | pager\<close> with one. \<^verbatim>\<open>exec_cmdline\<close> splits it
  into the stages \<^verbatim>\<open>printenv\<close>, \<^verbatim>\<open>sort\<close>, then \<^verbatim>\<open>grep filter\<close> if there is a filter, then the
  pager: the filter stage is the third one, after \<^verbatim>\<open>sort\<close>. \<^verbatim>\<open>check_env\<close> prints this
  line and passes it to \<^verbatim>\<open>exec_cmdline\<close>; what it does next depends on the value that
  call returns only.
\<close>

theorem check_env_command_line:
  "get_env_cmd [c] pager = ''printenv | sort | '' @ pager \<and>
   get_env_cmd [c, f] pager = ''printenv | sort | grep '' @ f @ '' | '' @ pager \<and>
   (CHR ''|'' \<notin> set pager \<longrightarrow>
      exec_cmdline w (get_env_cmd [c] pager) s =
        exec_stages w [''printenv '', '' sort '', '' '' @ pager] 0 3 s) \<and>
   (CHR ''|'' \<notin> set pager \<and> CHR ''|'' \<notin> set f \<longrightarrow>
      exec_cmdline w (get_env_cmd [c, f] pager) s =
        exec_stages w [''printenv '', '' sort '', '' grep '' @ f @ '' '', '' '' @ pager] 0 4 s) \<and>
   stage_args ''printenv '' = [''printenv''] \<and>
   stage_args '' sort '' = [''sort''] \<and>
   (f \<noteq> [] \<and> CHR '' '' \<notin> set f \<longrightarrow> stage_args ('' grep '' @ f @ '' '') = [''grep'', f]) \<and>
   stage_args ('' '' @ pager) = stage_args pager \<and>
   ((getenv w ''PAGER'' = Some pager \<or> getenv w ''PAGER'' = None \<and> pager = ''less'') \<and>
    length (get_env_cmd args pager) \<le> STR_LEN \<longrightarrow>
      check_env w args s =
        (case exec_cmdline w (get_env_cmd args pager)
                (emit (Stdout (Actual_command_line (get_env_cmd args pager))) s) of
           Returns v s' \<Rightarrow>
             if v = (if length args < 2 then 3 else 4) \<and> pager = ''less''
             then then_return
                    (exec_cmdline w (get_env_cmd args ''more'')
                       (emit (Stdout (Actual_command_line (get_env_cmd args ''more''))) s')) ()
             else Returns () s'
         | Exits e s' \<Rightarrow> Exits e s'
         | Undefined_behaviour \<Rightarrow> Undefined_behaviour))"
proof (intro conjI impI)
  show "get_env_cmd [c] pager = ''printenv | sort | '' @ pager"
    and "get_env_cmd [c, f] pager = ''printenv | sort | grep '' @ f @ '' | '' @ pager"
    by (simp_all add: get_env_cmd_def)
next
  assume a: "CHR ''|'' \<notin> set pager"
  then have "tokenize MAX_CMDS (get_env_cmd [c] pager) ''|'' =
      Some [''printenv '', '' sort '', '' '' @ pager]"
    unfolding tokenize_def Let_def listing_stages(1) [OF a] by (simp add: MAX_CMDS_def)
  from exec_cmdline_stages [OF this]
  show "exec_cmdline w (get_env_cmd [c] pager) s =
        exec_stages w [''printenv '', '' sort '', '' '' @ pager] 0 3 s"
    by (simp add: numeral_3_eq_3)
next
  assume a: "CHR ''|'' \<notin> set pager \<and> CHR ''|'' \<notin> set f"
  then have "strtok_all ''|'' [] (get_env_cmd [c, f] pager) =
       [''printenv '', '' sort '', '' grep '' @ f @ '' '', '' '' @ pager]"
    by (intro listing_stages(2)) simp_all
  then have "tokenize MAX_CMDS (get_env_cmd [c, f] pager) ''|'' =
      Some [''printenv '', '' sort '', '' grep '' @ f @ '' '', '' '' @ pager]"
    unfolding tokenize_def Let_def by (simp only:) (simp add: MAX_CMDS_def)
  from exec_cmdline_stages [OF this]
  show "exec_cmdline w (get_env_cmd [c, f] pager) s =
        exec_stages w [''printenv '', '' sort '', '' grep '' @ f @ '' '', '' '' @ pager] 0 4 s"
    by (simp add: eval_nat_numeral)
next
  show "stage_args ''printenv '' = [''printenv'']" and "stage_args '' sort '' = [''sort'']"
    and "stage_args ('' '' @ pager) = stage_args pager"
    by (simp_all add: stage_args_def tokenize_def MAX_ARGS_def)
next
  assume "f \<noteq> [] \<and> CHR '' '' \<notin> set f"
  then have "strtok_all '' '' [] ('' grep '' @ f @ '' '') = [''grep'', f]"
    by (intro grep_stage) simp_all
  then show "stage_args ('' grep '' @ f @ '' '') = [''grep'', f]"
    unfolding stage_args_def tokenize_def Let_def by (simp only:) (simp add: MAX_ARGS_def)
next
  assume a: "(getenv w ''PAGER'' = Some pager \<or> getenv w ''PAGER'' = None \<and> pager = ''less'') \<and>
    length (get_env_cmd args pager) \<le> STR_LEN"
  then have p: "length pager \<le> STR_LEN"
    by (simp add: get_env_cmd_def split: if_splits)
  have more: "length (get_env_cmd args ''more'') \<le> STR_LEN" if "pager = ''less''"
    using a that by (simp add: get_env_cmd_def split: if_splits)
  from a p have sel: "(case getenv w ''PAGER'' of
        Some p \<Rightarrow> if length p \<le> STR_LEN then Some p else None
      | None \<Rightarrow> Some ''less'') = Some pager"
    by auto
  show "check_env w args s =
        (case exec_cmdline w (get_env_cmd args pager)
                (emit (Stdout (Actual_command_line (get_env_cmd args pager))) s) of
           Returns v s' \<Rightarrow>
             if v = (if length args < 2 then 3 else 4) \<and> pager = ''less''
             then then_return
                    (exec_cmdline w (get_env_cmd args ''more'')
                       (emit (Stdout (Actual_command_line (get_env_cmd args ''more''))) s')) ()
             else Returns () s'
         | Exits e s' \<Rightarrow> Exits e s'
         | Undefined_behaviour \<Rightarrow> Undefined_behaviour)"
    apply (subst check_env.simps)
    apply (simp only: sel Let_def option.case)
    using a more apply (auto split: outcome.splits)
    done
qed


text \<open>
  \<^verbatim>\<open>checkEnv PATH\<close>, typed at the prompt where \<^verbatim>\<open>PAGER\<close> is not set, prints the line
  \<^verbatim>\<open>printenv | sort | grep PATH | less\<close>, creates three pipes and forks four children,
  for \<^verbatim>\<open>printenv\<close>, \<^verbatim>\<open>sort\<close>, \<^verbatim>\<open>grep PATH\<close> and \<^verbatim>\<open>less\<close> in this order.
\<close>

theorem check_env_command_line_witness:
  "get_env_cmd [''checkEnv''] ''less'' = ''printenv | sort | less'' \<and>
   get_env_cmd [''checkEnv'', ''PATH''] ''less'' = ''printenv | sort | grep PATH | less'' \<and>
   exec_cmdline example_world ''printenv | sort | less'' initial_os =
     exec_stages example_world [''printenv '', '' sort '', '' less''] 0 3 initial_os \<and>
   exec_cmdline example_world ''printenv | sort | grep PATH | less'' initial_os =
     exec_stages example_world [''printenv '', '' sort '', '' grep PATH '', '' less''] 0 4 initial_os \<and>
   stage_args '' grep PATH '' = [''grep'', ''PATH''] \<and>
   stage_args '' less'' = [''less''] \<and>
   getenv example_world ''PAGER'' = None \<and>
   check_env example_world [''checkEnv'', ''PATH''] initial_os =
     (case exec_cmdline example_world ''printenv | sort | grep PATH | less''
             (emit (Stdout (Actual_command_line ''printenv | sort | grep PATH | less'')) initial_os) of
        Returns v s' \<Rightarrow>
          if v = 4
          then then_return
                 (exec_cmdline example_world ''printenv | sort | grep PATH | more''
                    (emit (Stdout (Actual_command_line ''printenv | sort | grep PATH | more'')) s')) ()
          else Returns () s'
      | Exits e s' \<Rightarrow> Exits e s'
      | Undefined_behaviour \<Rightarrow> Undefined_behaviour) \<and>
   command_lines (trace_of (exec_cmdline example_world ''checkEnv PATH'' initial_os)) =
     [''printenv | sort | grep PATH | less''] \<and>
   programs (trace_of (exec_cmdline example_world ''checkEnv PATH'' initial_os)) =
     [[''printenv''], [''sort''], [''grep'', ''PATH''], [''less'']] \<and>
   spawns (trace_of (exec_cmdline example_world ''checkEnv PATH'' initial_os)) =
     [Pipe_created, Pipe_created, Pipe_created,
      Forked_stage 1, Forked_stage 2, Forked_stage 3, Forked_stage 4] \<and>
   programs (trace_of (exec_cmdline example_world ''checkEnv'' initial_os)) =
     [[''printenv''], [''sort''], [''less'']]"
proof -
  note t = check_env_command_line [where w = example_world and c = "''checkEnv''"
      and f = "''PATH''" and pager = "''less''" and args = "[''checkEnv'', ''PATH'']"
      and s = initial_os]
  have l: "get_env_cmd [''checkEnv''] ''less'' = ''printenv | sort | less''"
    "get_env_cmd [''checkEnv'', ''PATH''] ''less'' = ''printenv | sort | grep PATH | less''"
    using t by simp_all
  have m: "get_env_cmd [''checkEnv'', ''PATH''] ''more'' = ''printenv | sort | grep PATH | more''"
    by (simp add: get_env_cmd_def)
  have e: "exec_cmdline example_world ''printenv | sort | less'' initial_os =
     exec_stages example_world [''printenv '', '' sort '', '' less''] 0 3 initial_os"
    "exec_cmdline example_world ''printenv | sort | grep PATH | less'' initial_os =
     exec_stages example_world [''printenv '', '' sort '', '' grep PATH '', '' less''] 0 4 initial_os"
    using t unfolding l by simp_all
  have a: "stage_args '' grep PATH '' = [''grep'', ''PATH'']" "stage_args '' less'' = [''less'']"
    using t by (simp_all add: stage_args_def tokenize_def MAX_ARGS_def)
  have g: "getenv example_world ''PAGER'' = None"
    by (simp add: example_world_def)
  have n: "length (get_env_cmd [''checkEnv'', ''PATH''] ''less'') \<le> STR_LEN"
    unfolding l by (simp add: STR_LEN_def)
  have c: "check_env example_world [''checkEnv'', ''PATH''] initial_os =
     (case exec_cmdline example_world ''printenv | sort | grep PATH | less''
             (emit (Stdout (Actual_command_line ''printenv | sort | grep PATH | less'')) initial_os) of
        Returns v s' \<Rightarrow>
          if v = 4
          then then_return
                 (exec_cmdline example_world ''printenv | sort | grep PATH | more''
                    (emit (Stdout (Actual_command_line ''printenv | sort | grep PATH | more'')) s')) ()
          else Returns () s'
      | Exits e s' \<Rightarrow> Exits e s'
      | Undefined_behaviour \<Rightarrow> Undefined_behaviour)"
    using t g n unfolding l m by (simp split: outcome.splits)
  have c1: "command_lines (trace_of (exec_cmdline example_world ''checkEnv PATH'' initial_os)) =
     [''printenv | sort | grep PATH | less'']"
    by code_simp
  have c2: "programs (trace_of (exec_cmdline example_world ''checkEnv PATH'' initial_os)) =
     [[''printenv''], [''sort''], [''grep'', ''PATH''], [''less'']]"
    by code_simp
  have c3: "spawns (trace_of (exec_cmdline example_world ''checkEnv PATH'' initial_os)) =
     [Pipe_created, Pipe_created, Pipe_created,
      Forked_stage 1, Forked_stage 2, Forked_stage 3, Forked_stage 4]"
    by code_simp
  have c4: "programs (trace_of (exec_cmdline example_world ''checkEnv'' initial_os)) =
     [[''printenv''], [''sort''], [''less'']]"
    by code_simp
  from l e a g c c1 c2 c3 c4 show ?thesis
    by blast
qed

end
